theory Spec2Isabelle
  imports Complex_Main "HOL-Library.Sublist" "HOL-Library.Log_Nat"
begin

section \<open>JavaScript values\<close>

text \<open>
  The rule and notification models are Mongoose documents and the trigger data is the
  JSON body of a request. A JavaScript number is a binary64 value: NaN, an infinity or
  a finite value, which is a rational number. Both zeros are the rational 0: the source
  never divides by a zero and its comparisons do not tell the two apart.
\<close>

datatype jsnum = NaN | NegInf | Fin rat | PosInf

text \<open>
  A string is the list of its code units, for texts whose code units are below 256.
  An object is the list of its own properties in insertion order, read with
  \<open>map_of\<close>. \<open>JNative\<close> stands for a function or object of the runtime that a
  property read can find on a prototype (such as \<open>Object.prototype.toString\<close>),
  named by a label.
\<close>

datatype jsval =
    JUndefined
  | JNull
  | JBool bool
  | JNum jsnum
  | JStr string
  | JArr "jsval list"
  | JObj "(string \<times> jsval) list"
  | JNative string

datatype js_error = TypeError | RangeError | ValidationError

text \<open>The outcome of looking a property up on the prototype chain: there is none, it
  has a value, or it is an accessor that throws.\<close>

datatype lookup = Absent | Found jsval | Throws js_error

text \<open>
  What the source takes from the ECMAScript runtime and this development leaves open:
  the numeric value of a string that is not a short run of decimal digits, the text of
  a finite number, the members that a value inherits from its prototype chain, and the
  conversion of a runtime function or object to a text.
\<close>

record runtime =
  stringToNumber :: "string \<Rightarrow> jsnum"
  numberToString :: "rat \<Rightarrow> string"
  inherited :: "jsval \<Rightarrow> string \<Rightarrow> lookup"
  nativeToString :: "string \<Rightarrow> js_error + string"

subsection \<open>Numbers\<close>

text \<open>\<open>a < b\<close> on numbers: false as soon as one side is NaN.\<close>

fun num_lt :: "jsnum \<Rightarrow> jsnum \<Rightarrow> bool" where
  "num_lt NaN b = False"
| "num_lt a NaN = False"
| "num_lt PosInf b = False"
| "num_lt a NegInf = False"
| "num_lt NegInf b = True"
| "num_lt a PosInf = True"
| "num_lt (Fin x) (Fin y) = (x < y)"

definition num_gt :: "jsnum \<Rightarrow> jsnum \<Rightarrow> bool" where
  "num_gt a b = num_lt b a"

text \<open>\<open>a <= b\<close> and \<open>a >= b\<close>: false on NaN, otherwise the negation of the strict
  comparison the other way round.\<close>

definition num_le :: "jsnum \<Rightarrow> jsnum \<Rightarrow> bool" where
  "num_le a b = (a \<noteq> NaN \<and> b \<noteq> NaN \<and> \<not> num_lt b a)"

definition num_ge :: "jsnum \<Rightarrow> jsnum \<Rightarrow> bool" where
  "num_ge a b = num_le b a"

text \<open>
  Rounding to binary64, to nearest with ties to even. For a positive \<open>a\<close>,
  \<open>expOf a\<close> is the exponent \<open>e\<close> with \<open>2^e \<le> a < 2^(e+1)\<close>; the spacing of
  the doubles around \<open>a\<close> is \<open>2^(e-52)\<close>, with \<open>e\<close> not below \<open>-1022\<close>
  (subnormal numbers), and a result of \<open>2^1024\<close> or more is an infinity.
\<close>

definition expOf :: "rat \<Rightarrow> int" where
  "expOf a =
     (let (p, q) = quotient_of a;
          d = bitlen p - bitlen q
      in if a < 2 powi d then d - 1 else d)"

definition roundHalfEven :: "rat \<Rightarrow> int" where
  "roundHalfEven m =
     (let f = \<lfloor>m\<rfloor>; r = m - of_int f
      in if r < 1 / 2 then f
         else if 1 / 2 < r then f + 1
         else if even f then f else f + 1)"

definition roundDouble :: "rat \<Rightarrow> jsnum" where
  "roundDouble x =
     (if x = 0 then Fin 0
      else (let a = \<bar>x\<bar>;
                e = max (expOf a) (- 1022);
                ulp = 2 powi (e - 52);
                r = of_int (roundHalfEven (a / ulp)) * ulp
            in if 2 powi 1024 \<le> r then (if 0 < x then PosInf else NegInf)
               else Fin (if 0 < x then r else - r)))"

text \<open>The arithmetic of the source on numbers: \<open>a + b\<close>, \<open>a - b\<close>, \<open>a * b\<close> and
  \<open>a / b\<close>, each the exact result rounded.\<close>

fun num_add :: "jsnum \<Rightarrow> jsnum \<Rightarrow> jsnum" where
  "num_add NaN b = NaN"
| "num_add a NaN = NaN"
| "num_add PosInf NegInf = NaN"
| "num_add NegInf PosInf = NaN"
| "num_add PosInf b = PosInf"
| "num_add a PosInf = PosInf"
| "num_add NegInf b = NegInf"
| "num_add a NegInf = NegInf"
| "num_add (Fin x) (Fin y) = roundDouble (x + y)"

fun num_neg :: "jsnum \<Rightarrow> jsnum" where
  "num_neg NaN = NaN"
| "num_neg PosInf = NegInf"
| "num_neg NegInf = PosInf"
| "num_neg (Fin x) = Fin (- x)"

definition num_sub :: "jsnum \<Rightarrow> jsnum \<Rightarrow> jsnum" where
  "num_sub a b = num_add a (num_neg b)"

text \<open>An infinity with the sign of \<open>x\<close>, or NaN when \<open>x\<close> is zero.\<close>

definition infinityTimes :: "rat \<Rightarrow> jsnum" where
  "infinityTimes x = (if x = 0 then NaN else if 0 < x then PosInf else NegInf)"

fun num_mul :: "jsnum \<Rightarrow> jsnum \<Rightarrow> jsnum" where
  "num_mul NaN b = NaN"
| "num_mul a NaN = NaN"
| "num_mul (Fin x) (Fin y) = roundDouble (x * y)"
| "num_mul (Fin x) PosInf = infinityTimes x"
| "num_mul (Fin x) NegInf = infinityTimes (- x)"
| "num_mul PosInf (Fin y) = infinityTimes y"
| "num_mul NegInf (Fin y) = infinityTimes (- y)"
| "num_mul PosInf PosInf = PosInf"
| "num_mul NegInf NegInf = PosInf"
| "num_mul PosInf NegInf = NegInf"
| "num_mul NegInf PosInf = NegInf"

fun num_div :: "jsnum \<Rightarrow> jsnum \<Rightarrow> jsnum" where
  "num_div NaN b = NaN"
| "num_div a NaN = NaN"
| "num_div (Fin x) (Fin y) = (if y = 0 then infinityTimes x else roundDouble (x / y))"
| "num_div (Fin x) PosInf = Fin 0"
| "num_div (Fin x) NegInf = Fin 0"
| "num_div PosInf (Fin y) = (if 0 \<le> y then PosInf else NegInf)"
| "num_div NegInf (Fin y) = (if 0 \<le> y then NegInf else PosInf)"
| "num_div a b = NaN"

subsection \<open>Strings\<close>

definition isDigit :: "char \<Rightarrow> bool" where
  "isDigit c = (48 \<le> (of_char c :: nat) \<and> (of_char c :: nat) \<le> 57)"

definition digitsValue :: "string \<Rightarrow> nat" where
  "digitsValue s = foldl (\<lambda>n c. 10 * n + ((of_char c :: nat) - 48)) 0 s"

text \<open>
  \<open>Number(s)\<close> on a string. A run of one to fifteen decimal digits denotes its value,
  which is below \<open>2^53\<close> and so is a number exactly; every other string is converted by
  the runtime.
\<close>

definition StringToNumber :: "runtime \<Rightarrow> string \<Rightarrow> jsnum" where
  "StringToNumber rt s =
     (if s \<noteq> [] \<and> length s \<le> 15 \<and> list_all isDigit s
      then Fin (of_nat (digitsValue s))
      else stringToNumber rt s)"

definition NumberToString :: "runtime \<Rightarrow> jsnum \<Rightarrow> string" where
  "NumberToString rt n =
     (case n of
        NaN \<Rightarrow> ''NaN''
      | PosInf \<Rightarrow> ''Infinity''
      | NegInf \<Rightarrow> ''-Infinity''
      | Fin x \<Rightarrow> numberToString rt x)"

text \<open>
  \<open>toLowerCase\<close> on code units below 256: the letters A to Z and the Latin-1 capitals
  (0xC0 to 0xDE without the multiplication sign 0xD7) move up by 32.
\<close>

definition lowerChar :: "char \<Rightarrow> char" where
  "lowerChar c =
     (let n = (of_char c :: nat)
      in if (65 \<le> n \<and> n \<le> 90) \<or> (192 \<le> n \<and> n \<le> 222 \<and> n \<noteq> 215)
         then char_of (n + 32) else c)"

definition toLowerCase :: "string \<Rightarrow> string" where
  "toLowerCase s = map lowerChar s"

text \<open>\<open>hay.includes(needle)\<close> on strings.\<close>

definition str_includes :: "string \<Rightarrow> string \<Rightarrow> bool" where
  "str_includes hay needle = sublist needle hay"

text \<open>\<open>s.split(sep)\<close> for a one-character separator: never the empty list.\<close>

fun split_str :: "char \<Rightarrow> string \<Rightarrow> string list" where
  "split_str sep [] = [[]]"
| "split_str sep (c # cs) =
     (if c = sep then [] # split_str sep cs
      else (case split_str sep cs of
              [] \<Rightarrow> [[c]]
            | w # ws \<Rightarrow> (c # w) # ws))"

subsection \<open>Coercions\<close>

text \<open>Truthiness, as \<open>&&\<close>, \<open>||\<close> and \<open>!\<close> test it.\<close>

fun truthy :: "jsval \<Rightarrow> bool" where
  "truthy JUndefined = False"
| "truthy JNull = False"
| "truthy (JBool b) = b"
| "truthy (JNum n) = (n \<noteq> NaN \<and> n \<noteq> Fin 0)"
| "truthy (JStr s) = (s \<noteq> [])"
| "truthy (JArr xs) = True"
| "truthy (JObj ps) = True"
| "truthy (JNative f) = True"

text \<open>
  \<open>String(v)\<close>. An array joins the texts of its elements with commas, null and
  undefined elements giving the empty text. A plain object has the text
  \<open>[object Object]\<close> of \<open>Object.prototype.toString\<close>, unless it carries an own
  property \<open>toString\<close>: a property of parsed data is never callable, the inherited
  \<open>valueOf\<close> returns the object itself, and the conversion throws a TypeError.
\<close>

fun ToString :: "runtime \<Rightarrow> jsval \<Rightarrow> js_error + string"
  and joinElements :: "runtime \<Rightarrow> jsval list \<Rightarrow> js_error + string" where
  "ToString rt JUndefined = Inr ''undefined''"
| "ToString rt JNull = Inr ''null''"
| "ToString rt (JBool b) = Inr (if b then ''true'' else ''false'')"
| "ToString rt (JNum n) = Inr (NumberToString rt n)"
| "ToString rt (JStr s) = Inr s"
| "ToString rt (JArr xs) = joinElements rt xs"
| "ToString rt (JObj ps) =
     (if ''toString'' \<in> set (map fst ps) then Inl TypeError else Inr ''[object Object]'')"
| "ToString rt (JNative f) = nativeToString rt f"
| "joinElements rt [] = Inr []"
| "joinElements rt (x # xs) =
     (case (if x = JNull \<or> x = JUndefined then Inr [] else ToString rt x) of
        Inl e \<Rightarrow> Inl e
      | Inr s \<Rightarrow>
          (if xs = [] then Inr s
           else (case joinElements rt xs of
                   Inl e \<Rightarrow> Inl e
                 | Inr t \<Rightarrow> Inr (s @ '','' @ t))))"

text \<open>
  \<open>Number(v)\<close>: null is 0, undefined is NaN, an array, object or runtime value is
  converted through its text.
\<close>

definition ToNumber :: "runtime \<Rightarrow> jsval \<Rightarrow> js_error + jsnum" where
  "ToNumber rt v =
     (case v of
        JUndefined \<Rightarrow> Inr NaN
      | JNull \<Rightarrow> Inr (Fin 0)
      | JBool b \<Rightarrow> Inr (Fin (if b then 1 else 0))
      | JNum n \<Rightarrow> Inr n
      | JStr s \<Rightarrow> Inr (StringToNumber rt s)
      | _ \<Rightarrow> (case ToString rt v of
                Inl e \<Rightarrow> Inl e
              | Inr s \<Rightarrow> Inr (StringToNumber rt s)))"

text \<open>
  \<open>a === b\<close> between a value resolved from the trigger data and a value stored in a
  rule. Primitives are compared by value, NaN differing from itself; arrays, objects and
  runtime values are compared by identity, and the two sides never are the same object.
\<close>

fun strictEquals :: "jsval \<Rightarrow> jsval \<Rightarrow> bool" where
  "strictEquals JUndefined JUndefined = True"
| "strictEquals JNull JNull = True"
| "strictEquals (JBool a) (JBool b) = (a = b)"
| "strictEquals (JNum a) (JNum b) = (a \<noteq> NaN \<and> a = b)"
| "strictEquals (JStr a) (JStr b) = (a = b)"
| "strictEquals a b = False"

text \<open>The comparison of \<open>Array.prototype.includes\<close>: as \<open>===\<close>, but NaN equals NaN.\<close>

fun sameValueZero :: "jsval \<Rightarrow> jsval \<Rightarrow> bool" where
  "sameValueZero (JNum a) (JNum b) = (a = b)"
| "sameValueZero a b = strictEquals a b"

definition arr_includes :: "jsval list \<Rightarrow> jsval \<Rightarrow> bool" where
  "arr_includes xs v = list_ex (\<lambda>x. sameValueZero x v) xs"

subsection \<open>Property reads\<close>

text \<open>
  An array index is a digit string without a leading zero (or \<open>0\<close> itself).
\<close>

definition arrayIndex :: "string \<Rightarrow> nat option" where
  "arrayIndex k =
     (if k \<noteq> [] \<and> list_all isDigit k \<and> (k = ''0'' \<or> hd k \<noteq> CHR ''0'')
      then Some (digitsValue k) else None)"

text \<open>The own properties of a value: the entries of an object, the elements and the
  length of an array, the characters and the length of a string.\<close>

fun ownProperty :: "jsval \<Rightarrow> string \<Rightarrow> jsval option" where
  "ownProperty (JObj ps) k = map_of ps k"
| "ownProperty (JArr xs) k =
     (if k = ''length'' then Some (JNum (Fin (of_nat (length xs))))
      else (case arrayIndex k of
              None \<Rightarrow> None
            | Some i \<Rightarrow> if i < length xs then Some (xs ! i) else None))"
| "ownProperty (JStr s) k =
     (if k = ''length'' then Some (JNum (Fin (of_nat (length s))))
      else (case arrayIndex k of
              None \<Rightarrow> None
            | Some i \<Rightarrow> if i < length s then Some (JStr [s ! i]) else None))"
| "ownProperty v k = None"

text \<open>\<open>current[key]\<close> on a value that is neither null nor undefined: the own
  property, else the inherited one, else undefined.\<close>

definition getProperty :: "runtime \<Rightarrow> jsval \<Rightarrow> string \<Rightarrow> js_error + jsval" where
  "getProperty rt current key =
     (case ownProperty current key of
        Some v \<Rightarrow> Inr v
      | None \<Rightarrow> (case inherited rt current key of
                   Found v \<Rightarrow> Inr v
                 | Absent \<Rightarrow> Inr JUndefined
                 | Throws e \<Rightarrow> Inl e))"

section \<open>The notification rule model\<close>

text \<open>
  Documents as the schemas declare them. A path that a schema types as String, Boolean,
  Number or Date holds a value of that type: a Number is a number, a stored Date is a
  time value in milliseconds, and an optional path is an option. An enumeration that
  the source only copies is a datatype; the event type and the operator of a condition
  are kept as text, since the evaluation has a branch for an operator outside the
  enumeration and a stored document can hold a text that validation would reject.
\<close>

type_synonym objectId = string

record condition =
  field :: string
  operator :: string
  cvalue :: jsval

datatype recipient_type = Email | Phone | SlackUser | WebhookUrl

datatype action_type = EmailAction | SmsAction | SlackAction | WebhookAction | PushAction

datatype priority_level = Low | Normal | High | Urgent

record recipient =
  rcp_type :: recipient_type
  rcp_value :: string

record action_settings =
  as_priority :: priority_level
  delay :: jsnum
  retryAttempts :: jsnum
  retryDelay :: jsnum

record action =
  a_type :: action_type
  template :: string
  a_recipients :: "recipient list"
  a_settings :: action_settings

record time_window =
  tw_start :: "string option"
  tw_end :: "string option"
  tw_timezone :: "string option"

datatype frequency_kind = Immediate | Hourly | Daily | Weekly

record rule_settings =
  isActive :: bool
  rulePriority :: jsnum
  cooldown :: jsnum
  timeWindow :: time_window
  frequency :: frequency_kind

record rule_statistics =
  totalTriggered :: jsnum
  totalSent :: jsnum
  totalFailed :: jsnum
  lastTriggered :: "int option"

record rule =
  rule_id :: objectId
  name :: string
  description :: "string option"
  businessId :: objectId
  franchiseId :: "objectId option"
  eventType :: string
  conditions :: "condition list"
  actions :: "action list"
  settings :: rule_settings
  statistics :: rule_statistics

subsection \<open>getNestedValue\<close>

text \<open>
  One step of the reduction:
  \<^verbatim>\<open>current && current[key] !== undefined ? current[key] : null\<close>.
\<close>

definition getNestedStep :: "runtime \<Rightarrow> jsval \<Rightarrow> string \<Rightarrow> js_error + jsval" where
  "getNestedStep rt current key =
     (if \<not> truthy current then Inr JNull
      else (case getProperty rt current key of
              Inl e \<Rightarrow> Inl e
            | Inr v \<Rightarrow> Inr (if v \<noteq> JUndefined then v else JNull)))"

text \<open>\<open>keys.reduce(step, current)\<close>, left to right, ended by a step that throws.\<close>

fun reduceSteps :: "runtime \<Rightarrow> jsval \<Rightarrow> string list \<Rightarrow> js_error + jsval" where
  "reduceSteps rt current [] = Inr current"
| "reduceSteps rt current (key # keys) =
     (case getNestedStep rt current key of
        Inl e \<Rightarrow> Inl e
      | Inr v \<Rightarrow> reduceSteps rt v keys)"

definition getNestedValue :: "runtime \<Rightarrow> jsval \<Rightarrow> string \<Rightarrow> js_error + jsval" where
  "getNestedValue rt obj path = reduceSteps rt obj (split_str (CHR ''.'') path)"

subsection \<open>evaluateConditions\<close>

text \<open>The callback of \<open>every\<close> after the field has been resolved: the
  \<open>switch\<close> on the operator. The field value is converted before the condition value,
  and a conversion that throws ends the evaluation.\<close>

definition compareNumbers ::
  "runtime \<Rightarrow> (jsnum \<Rightarrow> jsnum \<Rightarrow> bool) \<Rightarrow> jsval \<Rightarrow> jsval \<Rightarrow> js_error + bool" where
  "compareNumbers rt cmp a b =
     (case ToNumber rt a of
        Inl e \<Rightarrow> Inl e
      | Inr x \<Rightarrow> (case ToNumber rt b of
                   Inl e \<Rightarrow> Inl e
                 | Inr y \<Rightarrow> Inr (cmp x y)))"

definition lowerIncludes :: "runtime \<Rightarrow> jsval \<Rightarrow> jsval \<Rightarrow> js_error + bool" where
  "lowerIncludes rt a b =
     (case ToString rt a of
        Inl e \<Rightarrow> Inl e
      | Inr s \<Rightarrow> (case ToString rt b of
                   Inl e \<Rightarrow> Inl e
                 | Inr t \<Rightarrow> Inr (str_includes (toLowerCase s) (toLowerCase t))))"

definition evalCondition :: "runtime \<Rightarrow> condition \<Rightarrow> jsval \<Rightarrow> js_error + bool" where
  "evalCondition rt c fieldValue =
     (if operator c = ''equals'' then Inr (strictEquals fieldValue (cvalue c))
      else if operator c = ''not_equals'' then Inr (\<not> strictEquals fieldValue (cvalue c))
      else if operator c = ''greater_than'' then compareNumbers rt num_gt fieldValue (cvalue c)
      else if operator c = ''less_than'' then compareNumbers rt num_lt fieldValue (cvalue c)
      else if operator c = ''contains'' then lowerIncludes rt fieldValue (cvalue c)
      else if operator c = ''not_contains'' then
        (case lowerIncludes rt fieldValue (cvalue c) of
           Inl e \<Rightarrow> Inl e
         | Inr b \<Rightarrow> Inr (\<not> b))
      else if operator c = ''in'' then
        (case cvalue c of
           JArr xs \<Rightarrow> Inr (arr_includes xs fieldValue)
         | _ \<Rightarrow> Inr False)
      else if operator c = ''not_in'' then
        (case cvalue c of
           JArr xs \<Rightarrow> Inr (\<not> arr_includes xs fieldValue)
         | _ \<Rightarrow> Inr False)
      else Inr False)"

text \<open>\<open>conditions.every(...)\<close>: the conditions in order, stopping at the first that is
  false or throws.\<close>

fun everyCondition :: "runtime \<Rightarrow> jsval \<Rightarrow> condition list \<Rightarrow> js_error + bool" where
  "everyCondition rt data [] = Inr True"
| "everyCondition rt data (c # cs) =
     (case getNestedValue rt data (field c) of
        Inl e \<Rightarrow> Inl e
      | Inr fieldValue \<Rightarrow>
          (case evalCondition rt c fieldValue of
             Inl e \<Rightarrow> Inl e
           | Inr b \<Rightarrow> if b then everyCondition rt data cs else Inr False))"

definition evaluateConditions :: "runtime \<Rightarrow> rule \<Rightarrow> jsval \<Rightarrow> js_error + bool" where
  "evaluateConditions rt r data = everyCondition rt data (conditions r)"

subsection \<open>isInTimeWindow\<close>

text \<open>
  \<^verbatim>\<open>const [hours, minutes] = timeString.split(':').map(Number);
  return hours * 60 + minutes;\<close>
  A part that is missing is undefined, and the sum is NaN.
\<close>

definition parseTime :: "runtime \<Rightarrow> string \<Rightarrow> jsnum" where
  "parseTime rt timeString =
     (case split_str (CHR '':'') timeString of
        h # m # _ \<Rightarrow> num_add (num_mul (StringToNumber rt h) (Fin 60)) (StringToNumber rt m)
      | _ \<Rightarrow> NaN)"

text \<open>
  The clock readings during the processing of one rule. \<open>localTime tz\<close> gives
  \<open>getHours()\<close> and \<open>getMinutes()\<close> of the current date converted to the time zone
  \<open>tz\<close>, or nothing when the runtime rejects the zone with a RangeError; the other
  fields are the values of \<open>Date.now()\<close> in the cooldown test and in the construction
  of the notification, and of \<open>new Date()\<close> in \<open>updateStatistics\<close>: time values,
  which are whole numbers that a double holds exactly.
\<close>

record clock =
  localTime :: "string \<Rightarrow> (jsnum \<times> jsnum) option"
  cooldownNow :: int
  scheduleNow :: int
  statsNow :: int

text \<open>An optional string is falsy when it is missing or empty; \<open>s || d\<close> is then
  \<open>d\<close>.\<close>

definition unset :: "string option \<Rightarrow> bool" where
  "unset s = (s = None \<or> s = Some [])"

definition orElse :: "string option \<Rightarrow> string \<Rightarrow> string" where
  "orElse s d = (case s of None \<Rightarrow> d | Some t \<Rightarrow> if t = [] then d else t)"

definition isInTimeWindow :: "runtime \<Rightarrow> clock \<Rightarrow> rule \<Rightarrow> js_error + bool" where
  "isInTimeWindow rt clk r =
     (let tw = timeWindow (settings r)
      in if unset (tw_start tw) \<or> unset (tw_end tw) then Inr True
         else
           (case localTime clk (orElse (tw_timezone tw) ''UTC'') of
              None \<Rightarrow> Inl RangeError
            | Some (hours, minutes) \<Rightarrow>
                (let currentTime = num_add (num_mul hours (Fin 60)) minutes;
                     startTime = parseTime rt (the (tw_start tw));
                     endTime = parseTime rt (the (tw_end tw))
                 in if num_le startTime endTime
                    then Inr (num_ge currentTime startTime \<and> num_le currentTime endTime)
                    else Inr (num_ge currentTime startTime \<or> num_le currentTime endTime))))"

subsection \<open>shouldTrigger and updateStatistics\<close>

definition inCooldown :: "clock \<Rightarrow> rule \<Rightarrow> bool" where
  "inCooldown clk r =
     (case lastTriggered (statistics r) of
        None \<Rightarrow> False
      | Some lastTime \<Rightarrow>
          num_gt (cooldown (settings r)) (Fin 0) \<and>
          (let cooldownMs = num_mul (num_mul (cooldown (settings r)) (Fin 60)) (Fin 1000);
               timeSinceLastTrigger =
                 num_sub (Fin (of_int (cooldownNow clk))) (Fin (of_int lastTime))
           in num_lt timeSinceLastTrigger cooldownMs))"

definition shouldTrigger :: "runtime \<Rightarrow> clock \<Rightarrow> rule \<Rightarrow> jsval \<Rightarrow> js_error + bool" where
  "shouldTrigger rt clk r data =
     (if \<not> isActive (settings r) then Inr False
      else (case isInTimeWindow rt clk r of
              Inl e \<Rightarrow> Inl e
            | Inr inWindow \<Rightarrow>
                if \<not> inWindow then Inr False
                else if inCooldown clk r then Inr False
                else evaluateConditions rt r data))"

text \<open>The changes that \<open>updateStatistics\<close> makes to the document; the \<open>save\<close>
  that ends it is \<open>saveRule\<close> below.\<close>

definition updateStatistics :: "int \<Rightarrow> bool \<Rightarrow> rule \<Rightarrow> rule" where
  "updateStatistics now success r =
     (let s = statistics r;
          s1 = s\<lparr>totalTriggered := num_add (totalTriggered s) (Fin 1),
                 lastTriggered := Some now\<rparr>;
          s2 = (if success then s1\<lparr>totalSent := num_add (totalSent s1) (Fin 1)\<rparr>
                else s1\<lparr>totalFailed := num_add (totalFailed s1) (Fin 1)\<rparr>)
      in r\<lparr>statistics := s2\<rparr>)"

section \<open>The notification model\<close>

datatype recipient_status = RPending | RSent | RFailed | RDelivered | RBounced

record recipient_state =
  rs_type :: recipient_type
  rs_value :: string
  rs_status :: recipient_status
  rs_sentAt :: "int option"
  rs_error :: "string option"
  rs_retryCount :: int

datatype notification_status = Pending | Processing | Sent | Failed | Cancelled

record notification_content =
  subject :: string
  body :: string
  content_template :: string
  variables :: jsval

record notification =
  ruleId :: objectId
  n_businessId :: objectId
  n_franchiseId :: "objectId option"
  n_eventType :: string
  triggerData :: jsval
  recipients :: "recipient_state list"
  content :: notification_content
  status :: notification_status
  priority :: priority_level
  scheduledFor :: "int option"
  sentAt :: "int option"
  failedAt :: "int option"
  error :: "string option"
  retryCount :: int
  maxRetries :: int

text \<open>
  \<open>scheduledFor\<close> is the time value of a Date, or nothing for an Invalid Date, which a
  document can hold until it is saved.
  The methods change the document and save it; the model returns the changed document.
  \<open>markAsSent\<close> reads the clock once for the notification (\<open>now\<close>) and once more for
  each pending recipient: \<open>nowAt i\<close> is the reading while recipient \<open>i\<close> is visited.
\<close>

definition markAsSent :: "int \<Rightarrow> (nat \<Rightarrow> int) \<Rightarrow> notification \<Rightarrow> notification" where
  "markAsSent now nowAt n =
     n\<lparr>status := Sent,
       sentAt := Some now,
       recipients :=
         map (\<lambda>(i, r). if rs_status r = RPending
                        then r\<lparr>rs_status := RSent, rs_sentAt := Some (nowAt i)\<rparr>
                        else r)
             (enumerate 0 (recipients n))\<rparr>"

definition markAsFailed :: "int \<Rightarrow> string \<Rightarrow> notification \<Rightarrow> notification" where
  "markAsFailed now err n =
     n\<lparr>status := Failed,
       failedAt := Some now,
       error := Some err,
       recipients :=
         map (\<lambda>r. if rs_status r = RPending
                   then r\<lparr>rs_status := RFailed, rs_error := Some err\<rparr>
                   else r)
             (recipients n)\<rparr>"

definition incrementRetry :: "notification \<Rightarrow> notification" where
  "incrementRetry n =
     n\<lparr>retryCount := retryCount n + 1,
       recipients :=
         map (\<lambda>r. if rs_status r = RFailed
                   then r\<lparr>rs_retryCount := rs_retryCount r + 1\<rparr>
                   else r)
             (recipients n)\<rparr>"

definition canRetry :: "notification \<Rightarrow> bool" where
  "canRetry n = (retryCount n < maxRetries n \<and> status n = Failed)"

definition successful :: "recipient_state \<Rightarrow> bool" where
  "successful r = (rs_status r \<in> set [RSent, RDelivered])"

definition getSuccessRate :: "notification \<Rightarrow> jsnum" where
  "getSuccessRate n =
     (let totalRecipients = length (recipients n)
      in if totalRecipients = 0 then Fin 0
         else (let successfulRecipients = length (filter successful (recipients n))
               in num_mul (num_div (Fin (of_nat successfulRecipients))
                                   (Fin (of_nat totalRecipients)))
                          (Fin 100)))"

section \<open>The trigger handler\<close>





text \<open>
  Validation, as the schemas declare it for the paths of the model: a required String
  is not empty, a required Mixed value is neither null nor undefined, a text with an
  enumeration is one of its members, \<open>name\<close> has at most 100 characters and
  \<open>description\<close> at most 500, a Date is not an Invalid Date, and a Number path that
  has been set is not NaN.
\<close>

definition eventTypes :: "string list" where
  "eventTypes = [''form_submitted'', ''rating_low'', ''rating_high'', ''complaint'',
                 ''compliment'', ''staff_mentioned'', ''custom'']"

definition operators :: "string list" where
  "operators = [''equals'', ''not_equals'', ''greater_than'', ''less_than'', ''contains'',
                ''not_contains'', ''in'', ''not_in'']"

definition validCondition :: "condition \<Rightarrow> bool" where
  "validCondition c =
     (field c \<noteq> [] \<and> operator c \<in> set operators \<and>
      cvalue c \<noteq> JNull \<and> cvalue c \<noteq> JUndefined)"

definition validAction :: "action \<Rightarrow> bool" where
  "validAction a = (template a \<noteq> [] \<and> list_all (\<lambda>rc. rcp_value rc \<noteq> []) (a_recipients a))"

definition validRule :: "rule \<Rightarrow> bool" where
  "validRule r =
     (name r \<noteq> [] \<and> length (name r) \<le> 100 \<and>
      (case description r of None \<Rightarrow> True | Some d \<Rightarrow> length d \<le> 500) \<and>
      eventType r \<in> set eventTypes \<and>
      list_all validCondition (conditions r) \<and>
      list_all validAction (actions r) \<and>
      totalTriggered (statistics r) \<noteq> NaN \<and>
      totalSent (statistics r) \<noteq> NaN \<and>
      totalFailed (statistics r) \<noteq> NaN)"

definition validNotification :: "notification \<Rightarrow> bool" where
  "validNotification n =
     (n_eventType n \<in> set eventTypes \<and>
      triggerData n \<noteq> JNull \<and> triggerData n \<noteq> JUndefined \<and>
      list_all (\<lambda>r. rs_value r \<noteq> []) (recipients n) \<and>
      scheduledFor n \<noteq> None)"



text \<open>\<open>rule.actions[0]?.template || fallback\<close>: the fallback when there is no action or
  the template is empty.\<close>

definition firstTemplate :: "rule \<Rightarrow> string \<Rightarrow> string" where
  "firstTemplate r fallback =
     (case actions r of
        [] \<Rightarrow> fallback
      | a # _ \<Rightarrow> if template a = [] then fallback else template a)"

definition pendingRecipient :: "recipient \<Rightarrow> recipient_state" where
  "pendingRecipient rc =
     \<lparr>rs_type = rcp_type rc, rs_value = rcp_value rc, rs_status = RPending,
      rs_sentAt = None, rs_error = None, rs_retryCount = 0\<rparr>"

text \<open>\<open>rule.actions[0]?.settings?.delay || 0\<close>: 0 when there is no action, and when
  the delay is 0 or NaN.\<close>

definition firstDelay :: "rule \<Rightarrow> jsnum" where
  "firstDelay r =
     (case actions r of
        [] \<Rightarrow> Fin 0
      | a # _ \<Rightarrow> if delay (a_settings a) = NaN \<or> delay (a_settings a) = Fin 0 then Fin 0
                 else delay (a_settings a))"

text \<open>\<open>new Date(t)\<close>: an Invalid Date when \<open>t\<close> is not finite or beyond
  8.64e15 milliseconds, else the time value \<open>t\<close> without its fraction.\<close>

definition newDate :: "jsnum \<Rightarrow> int option" where
  "newDate t =
     (case t of
        Fin x \<Rightarrow> if 8640000000000000 < \<bar>x\<bar> then None
                 else Some (if 0 \<le> x then \<lfloor>x\<rfloor> else \<lceil>x\<rceil>)
      | _ \<Rightarrow> None)"

text \<open>The document that \<open>new Notification({...})\<close> builds for a rule, the schema's
  defaults filled in; \<open>now\<close> is the value of \<open>Date.now()\<close>.\<close>

definition newNotification :: "int \<Rightarrow> rule \<Rightarrow> jsval \<Rightarrow> notification" where
  "newNotification now r data =
     \<lparr>ruleId = rule_id r,
      n_businessId = businessId r,
      n_franchiseId = franchiseId r,
      n_eventType = eventType r,
      triggerData = data,
      recipients = concat (map (\<lambda>a. map pendingRecipient (a_recipients a)) (actions r)),
      content =
        \<lparr>subject = firstTemplate r ''Notification'',
         body = firstTemplate r ''You have a new notification'',
         content_template = firstTemplate r ''default'',
         variables = data\<rparr>,
      status = Pending,
      priority = (case actions r of [] \<Rightarrow> Normal | a # _ \<Rightarrow> as_priority (a_settings a)),
      scheduledFor =
        newDate (num_add (Fin (of_int now)) (num_mul (firstDelay r) (Fin 60000))),
      sentAt = None,
      failedAt = None,
      error = None,
      retryCount = 0,
      maxRetries = 3\<rparr>"



section \<open>Predicates and sample values for the statements\<close>

text \<open>\<open>Array.isArray\<close>.\<close>

definition isArray :: "jsval \<Rightarrow> bool" where
  "isArray v = (case v of JArr xs \<Rightarrow> True | _ \<Rightarrow> False)"


text \<open>The decimal numeral of a natural number: the property name of an index.\<close>

fun decimal :: "nat \<Rightarrow> string" where
  "decimal n =
     (if n < 10 then [char_of (48 + n)]
      else decimal (n div 10) @ [char_of (48 + n mod 10)])"

declare decimal.simps [simp del]

text \<open>The two-digit numeral of a number below 100, as in \<open>HH:MM\<close>.\<close>

definition twoDigits :: "nat \<Rightarrow> string" where
  "twoDigits n = [char_of (48 + n div 10), char_of (48 + n mod 10)]"

text \<open>What a step of the resolution makes of a property found on the prototype chain:
  its value, null when there is none or when the value is undefined, or the exception of
  an accessor.\<close>

definition orNull :: "lookup \<Rightarrow> js_error + jsval" where
  "orNull l =
     (case l of
        Absent \<Rightarrow> Inr JNull
      | Found v \<Rightarrow> Inr (if v = JUndefined then JNull else v)
      | Throws e \<Rightarrow> Inl e)"

text \<open>
  A runtime for the concrete evaluations. They convert no text to a number but
  \<open>abc\<close>, which is not a numeric literal, no number to a text, and read no property
  name that a prototype defines.
\<close>

definition sampleRuntime :: runtime where
  "sampleRuntime =
     \<lparr>stringToNumber = (\<lambda>s. NaN),
      numberToString = (\<lambda>x. ''0''),
      inherited = (\<lambda>v k. Absent),
      nativeToString = (\<lambda>f. Inr ''function () { [native code] }'')\<rparr>"

definition exampleRecipient :: "recipient_status \<Rightarrow> recipient_state" where
  "exampleRecipient s =
     \<lparr>rs_type = Email, rs_value = ''ops@example.com'', rs_status = s,
      rs_sentAt = None, rs_error = None, rs_retryCount = 0\<rparr>"

definition exampleNotification :: "recipient_status list \<Rightarrow> notification" where
  "exampleNotification ss =
     \<lparr>ruleId = ''r1'', n_businessId = ''B1'', n_franchiseId = None,
      n_eventType = ''rating_low'', triggerData = JObj [(''rating'', JNum (Fin 1))],
      recipients = map exampleRecipient ss,
      content = \<lparr>subject = ''Low rating'', body = ''Low rating'',
                 content_template = ''Low rating'',
                 variables = JObj [(''rating'', JNum (Fin 1))]\<rparr>,
      status = Pending, priority = Normal, scheduledFor = Some 0, sentAt = None,
      failedAt = None, error = None, retryCount = 0, maxRetries = 3\<rparr>"


text \<open>
  The iteration of the loop for one candidate ends without an exception: the gate and the
  conditions return, and when the rule fires its notification and its updated statistics
  pass validation. \<open>processed\<close> is the number of candidates, from the first on, whose
  iterations end so: all of them, or those before the one that makes the handler answer
  with an error.
\<close>

definition handled :: "runtime \<Rightarrow> clock \<Rightarrow> rule \<Rightarrow> jsval \<Rightarrow> bool" where
  "handled rt c r data =
     (case shouldTrigger rt c r data of
        Inl e \<Rightarrow> False
      | Inr fires \<Rightarrow>
          \<not> fires \<or>
          (validNotification (newNotification (scheduleNow c) r data) \<and>
           validRule (updateStatistics (statsNow c) True r)))"

definition processed ::
  "runtime \<Rightarrow> (nat \<Rightarrow> clock) \<Rightarrow> jsval \<Rightarrow> nat \<Rightarrow> rule list \<Rightarrow> nat" where
  "processed rt clk data i cs =
     length (takeWhile (\<lambda>kr. handled rt (clk (fst kr)) (snd kr) data) (enumerate i cs))"



text \<open>Sample rules, clock and request: a business \<open>B1\<close> with rules on the event
  \<open>rating_low\<close>.\<close>

definition exampleRule :: "objectId \<Rightarrow> bool \<Rightarrow> condition list \<Rightarrow> action list \<Rightarrow> rule" where
  "exampleRule i active cs as =
     \<lparr>rule_id = i, name = ''Low rating alert'', description = None, businessId = ''B1'',
      franchiseId = None, eventType = ''rating_low'',
      conditions = cs, actions = as,
      settings = \<lparr>isActive = active, rulePriority = Fin 0, cooldown = Fin 0,
                  timeWindow = \<lparr>tw_start = None, tw_end = None, tw_timezone = Some ''UTC''\<rparr>,
                  frequency = Immediate\<rparr>,
      statistics = \<lparr>totalTriggered = Fin 0, totalSent = Fin 0, totalFailed = Fin 0,
                    lastTriggered = None\<rparr>\<rparr>"

definition windowRule :: "string \<Rightarrow> string \<Rightarrow> string option \<Rightarrow> rule" where
  "windowRule a b z =
     (exampleRule ''w1'' True [] [])
       \<lparr>settings := \<lparr>isActive = True, rulePriority = Fin 0, cooldown = Fin 0,
                      timeWindow = \<lparr>tw_start = Some a, tw_end = Some b, tw_timezone = z\<rparr>,
                      frequency = Immediate\<rparr>\<rparr>"

text \<open>A clock that knows two zones: at \<open>h:m\<close> in UTC it is nine hours later in
  Tokyo; every other zone it rejects.\<close>

definition clockAt :: "nat \<Rightarrow> nat \<Rightarrow> clock" where
  "clockAt h m =
     \<lparr>localTime =
        (\<lambda>tz. if tz = ''UTC'' then Some (Fin (of_nat h), Fin (of_nat m))
              else if tz = ''Asia/Tokyo'' then Some (Fin (of_nat ((h + 9) mod 24)), Fin (of_nat m))
              else None),
      cooldownNow = 1000, scheduleNow = 1000, statsNow = 1000\<rparr>"

definition lowRating :: condition where
  "lowRating = \<lparr>field = ''rating'', operator = ''less_than'', cvalue = JNum (Fin 3)\<rparr>"

definition emailAction :: action where
  "emailAction =
     \<lparr>a_type = EmailAction, template = ''Low rating received'',
      a_recipients = [\<lparr>rcp_type = Email, rcp_value = ''owner@example.com''\<rparr>],
      a_settings = \<lparr>as_priority = High, delay = Fin 5, retryAttempts = Fin 3,
                    retryDelay = Fin 5\<rparr>\<rparr>"

definition smsAction :: action where
  "smsAction =
     \<lparr>a_type = SmsAction, template = ''Rating alert'',
      a_recipients = [\<lparr>rcp_type = Phone, rcp_value = ''+15550100''\<rparr>],
      a_settings = \<lparr>as_priority = Urgent, delay = Fin 0, retryAttempts = Fin 3,
                    retryDelay = Fin 5\<rparr>\<rparr>"



text \<open>Three rules of the business: one that fires on the sample request and has two
  actions, one that is switched off, and one whose condition does not hold.\<close>

definition ruleOne :: rule where
  "ruleOne = exampleRule ''r1'' True [lowRating] [emailAction, smsAction]"




section \<open>Rounding to binary64\<close>

lemma roundHalfEven_int: "roundHalfEven (of_int k) = k"
  by (simp add: roundHalfEven_def)

lemma pow2_pos: "0 < (2::rat) powi e"
  by (simp add: power_int_def)

lemma pow2_less_iff: "(2::rat) powi a < 2 powi b \<longleftrightarrow> a < b"
proof
  assume "(2::rat) powi a < 2 powi b"
  show "a < b"
  proof (rule ccontr)
    assume "\<not> a < b"
    then have "(2::rat) powi b \<le> 2 powi a" by (simp add: power_int_increasing)
    with \<open>(2::rat) powi a < 2 powi b\<close> show False by simp
  qed
next
  assume "a < b"
  then show "(2::rat) powi a < 2 powi b" by (simp add: power_int_strict_increasing)
qed

lemma pow2_le_iff: "(2::rat) powi a \<le> 2 powi b \<longleftrightarrow> a \<le> b"
  using pow2_less_iff[of b a] by (auto simp: not_less[symmetric])

lemma pow2_bitlen:
  assumes "0 < (p::int)"
  shows "(2::rat) powi (bitlen p - 1) \<le> of_int p" "of_int p < (2::rat) powi (bitlen p)"
proof -
  have b1: "1 \<le> bitlen p" using assms by (auto simp: bitlen_alt_def)
  from bitlen_bounds[OF assms] have lo: "2 ^ nat (bitlen p - 1) \<le> p" and hi: "p < 2 ^ nat (bitlen p)"
    by auto
  have "(2::rat) powi (bitlen p - 1) = of_int (2 ^ nat (bitlen p - 1))"
    using b1 by (simp add: power_int_def)
  also have "\<dots> \<le> of_int p" using lo by (simp only: of_int_le_iff)
  finally show "(2::rat) powi (bitlen p - 1) \<le> of_int p" .
  have "(2::rat) powi (bitlen p) = of_int (2 ^ nat (bitlen p))"
    using b1 by (simp add: power_int_def)
  moreover have "(of_int p :: rat) < of_int (2 ^ nat (bitlen p))"
    using hi by (simp only: of_int_less_iff)
  ultimately show "of_int p < (2::rat) powi (bitlen p)" by simp
qed

text \<open>\<open>expOf\<close> is the binary exponent of a positive number.\<close>

lemma expOf_bounds:
  assumes "0 < a"
  shows "2 powi (expOf a) \<le> a \<and> a < 2 powi (expOf a + 1)"
proof -
  obtain p q where pq: "quotient_of a = (p, q)" by (cases "quotient_of a")
  then have q: "0 < q" and a: "a = of_int p / of_int q"
    using quotient_of_denom_pos quotient_of_div by blast+
  with assms have p: "0 < p" by (simp add: zero_less_divide_iff)
  let ?bp = "bitlen p" and ?bq = "bitlen q"
  note P = pow2_bitlen[OF p] and Q = pow2_bitlen[OF q]
  have qr: "0 < (of_int q :: rat)" "0 < (of_int p :: rat)" using p q by simp_all
  have up: "a < 2 powi (?bp - ?bq + 1)"
  proof -
    have "a < 2 powi ?bp / of_int q"
      unfolding a using P(2) qr by (simp add: divide_strict_right_mono)
    also have "\<dots> \<le> 2 powi ?bp / 2 powi (?bq - 1)"
      using Q(1) pow2_pos[of "?bq - 1"] pow2_pos[of ?bp] by (simp add: frac_le)
    also have "\<dots> = 2 powi (?bp - (?bq - 1))"
      by (simp add: power_int_diff)
    also have "?bp - (?bq - 1) = ?bp - ?bq + 1" by simp
    finally show ?thesis .
  qed
  have lo: "2 powi (?bp - ?bq - 1) \<le> a"
  proof -
    have ex: "?bp - ?bq - 1 = (?bp - 1) - ?bq" by simp
    have "(2::rat) powi (?bp - ?bq - 1) = 2 powi (?bp - 1) / 2 powi ?bq"
      unfolding ex by (rule power_int_diff) simp
    also have "\<dots> \<le> of_int p / 2 powi ?bq"
      using P(1) pow2_pos[of ?bq] by (simp add: divide_right_mono)
    also have "\<dots> \<le> of_int p / of_int q"
      using Q(2) qr by (simp add: frac_le)
    finally show ?thesis by (simp add: a)
  qed
  show ?thesis
    using up lo by (auto simp: expOf_def pq Let_def not_less)
qed

lemma roundDouble_exact:
  assumes "x \<noteq> 0"
    and "of_int (roundHalfEven (\<bar>x\<bar> / 2 powi (max (expOf \<bar>x\<bar>) (- 1022) - 52)))
           * 2 powi (max (expOf \<bar>x\<bar>) (- 1022) - 52) = \<bar>x\<bar>"
    and "\<not> 2 powi 1024 \<le> \<bar>x\<bar>"
  shows "roundDouble x = Fin x"
  unfolding roundDouble_def Let_def assms(2) using assms(1,3) by auto

text \<open>A whole number of size at most \<open>2^53\<close> is a double.\<close>

lemma roundDouble_int:
  assumes "\<bar>n\<bar> \<le> 2 ^ 53"
  shows "roundDouble (of_int n) = Fin (of_int n)"
proof (cases "n = 0")
  case True
  then show ?thesis by (simp add: roundDouble_def)
next
  case False
  let ?a = "\<bar>of_int n :: rat\<bar>"
  define e where "e = max (expOf ?a) (- 1022)"
  have apos: "0 < ?a" using False by simp
  have a1: "1 \<le> ?a"
  proof -
    have "1 \<le> \<bar>n\<bar>" using False by simp
    then have "(of_int 1 :: rat) \<le> of_int \<bar>n\<bar>" by (simp only: of_int_le_iff)
    then show ?thesis by simp
  qed
  have a53: "?a \<le> 2 powi 53"
  proof -
    have "?a = of_int \<bar>n\<bar>" by simp
    also have "\<dots> \<le> of_int (2 ^ 53)" using assms by (simp only: of_int_le_iff)
    finally show ?thesis by simp
  qed
  note eb = expOf_bounds[OF apos]
  have e0: "0 \<le> expOf ?a"
  proof -
    have "(2::rat) powi 0 < 2 powi (expOf ?a + 1)" using a1 eb by simp
    then have "0 < expOf ?a + 1" by (simp only: pow2_less_iff)
    then show ?thesis by simp
  qed
  have ee: "e = expOf ?a" using e0 by (simp add: e_def)
  have lo: "2 powi e \<le> ?a" and hi: "?a < 2 powi (e + 1)" using eb unfolding ee by blast+
  have e53: "e \<le> 53"
  proof -
    have "(2::rat) powi e \<le> 2 powi 53" using a53 lo by linarith
    then show ?thesis by (simp only: pow2_le_iff)
  qed
  obtain k :: int where k: "?a / 2 powi (e - 52) = of_int k"
  proof (cases "e \<le> 52")
    case True
    have "(2::rat) powi (52 - e) = of_int (2 ^ nat (52 - e))"
      using True by (simp add: power_int_def)
    moreover have "?a / 2 powi (e - 52) = ?a * 2 powi (52 - e)"
      using power_int_minus[of "2::rat" "e - 52"] by (simp add: field_simps)
    ultimately have "?a / 2 powi (e - 52) = of_int (\<bar>n\<bar> * 2 ^ nat (52 - e))"
      by simp
    then show ?thesis using that by blast
  next
    case False
    with e53 have e: "e = 53" by simp
    with lo a53 have a: "?a = 2 powi 53" by simp
    from e have "?a / 2 powi (e - 52) = ?a / 2" by simp
    also have "\<dots> = of_int (2 ^ 52)" unfolding a by simp
    finally show ?thesis using that by blast
  qed
  have r: "of_int (roundHalfEven (?a / 2 powi (e - 52))) * 2 powi (e - 52) = ?a"
    unfolding k roundHalfEven_int using k pow2_pos[of "e - 52"] by (simp add: field_simps)
  have lt: "\<not> 2 powi 1024 \<le> ?a"
  proof -
    have "(2::rat) powi 53 < 2 powi 1024" by (rule iffD2[OF pow2_less_iff]) simp
    with a53 show ?thesis by linarith
  qed
  have nz: "(of_int n :: rat) \<noteq> 0" using False by simp
  show ?thesis
    by (rule roundDouble_exact[OF nz r[unfolded e_def] lt])
qed

lemma roundDouble_nat:
  assumes "n \<le> 2 ^ 53"
  shows "roundDouble (of_nat n) = Fin (of_nat n)"
proof -
  have "int n \<le> int (2 ^ 53)" using assms by (simp only: of_nat_le_iff)
  then have "\<bar>int n\<bar> \<le> 2 ^ 53" by simp
  from roundDouble_int[OF this] show ?thesis by simp
qed

lemma num_add_nat:
  "a + b \<le> 2 ^ 53 \<Longrightarrow> num_add (Fin (of_nat a)) (Fin (of_nat b)) = Fin (of_nat (a + b))"
  using roundDouble_nat[of "a + b"] by simp

lemma num_mul_nat:
  "a * b \<le> 2 ^ 53 \<Longrightarrow> num_mul (Fin (of_nat a)) (Fin (of_nat b)) = Fin (of_nat (a * b))"
  using roundDouble_nat[of "a * b"] by simp

lemma roundDouble_small:
  "roundDouble 1 = Fin 1" "roundDouble 100 = Fin 100"
  using roundDouble_int[of 1] roundDouble_int[of 100] by simp_all

section \<open>The notification state machine\<close>

lemma filter_successful:
  "filter successful rs = filter (\<lambda>r. rs_status r = RSent \<or> rs_status r = RDelivered) rs"
  by (rule filter_cong) (auto simp: successful_def)

lemma two_thirds_percent:
  "num_mul (num_div (Fin 2) (Fin 3)) (Fin 100) = Fin (2345624805922133 / 35184372088832)"
  by code_simp

lemma eleven_of_twenty_percent:
  "num_mul (num_div (Fin 11) (Fin 20)) (Fin 100) = Fin (7740561859543041 / 140737488355328)"
  by code_simp

lemma all_percent:
  assumes "0 < m"
  shows "num_mul (num_div (Fin (of_nat m)) (Fin (of_nat m))) (Fin 100) = Fin 100"
  using assms by (simp add: roundDouble_small)

text \<open>
  C6: the success rate is the number of recipients whose status is sent or delivered,
  divided by the number of recipients and multiplied by 100, in the arithmetic of
  doubles; for the statuses sent, failed, delivered it is the double
  66.66666666666666, that is two thirds of 100 and 66.67 to two decimals, and it is 0
  when there is no recipient.
\<close>

theorem getSuccessRate_fraction:
  "getSuccessRate n =
     (if recipients n = [] then Fin 0
      else num_mul
             (num_div
                (Fin (of_nat (length (filter (\<lambda>r. rs_status r = RSent \<or> rs_status r = RDelivered)
                                        (recipients n)))))
                (Fin (of_nat (length (recipients n)))))
             (Fin 100))
   \<and> (map rs_status (recipients n) = [RSent, RFailed, RDelivered] \<longrightarrow>
        getSuccessRate n = Fin (2345624805922133 / 35184372088832)
        \<and> \<bar>2345624805922133 / 35184372088832 - 200 / 3\<bar> < (1 / 10 ^ 13 :: rat)
        \<and> \<bar>2345624805922133 / 35184372088832 - 6667 / 100\<bar> < (5 / 1000 :: rat))
   \<and> (recipients n = [] \<longrightarrow> getSuccessRate n = Fin 0)"
proof -
  have general: "getSuccessRate n =
     (if recipients n = [] then Fin 0
      else num_mul
             (num_div
                (Fin (of_nat (length (filter (\<lambda>r. rs_status r = RSent \<or> rs_status r = RDelivered)
                                        (recipients n)))))
                (Fin (of_nat (length (recipients n)))))
             (Fin 100))"
    by (simp add: getSuccessRate_def Let_def filter_successful)
  have three: "getSuccessRate n = Fin (2345624805922133 / 35184372088832)"
    if "map rs_status (recipients n) = [RSent, RFailed, RDelivered]"
  proof -
    from that obtain a b c where rs: "recipients n = [a, b, c]"
      and st: "rs_status a = RSent" "rs_status b = RFailed" "rs_status c = RDelivered"
      by (auto simp: map_eq_Cons_conv)
    have "getSuccessRate n = num_mul (num_div (Fin 2) (Fin 3)) (Fin 100)"
      unfolding general by (simp add: rs st)
    then show ?thesis by (simp only: two_thirds_percent)
  qed
  have near: "\<bar>2345624805922133 / 35184372088832 - 200 / 3\<bar> < (1 / 10 ^ 13 :: rat)"
      "\<bar>2345624805922133 / 35184372088832 - 6667 / 100\<bar> < (5 / 1000 :: rat)"
    by simp_all
  from general three near show ?thesis by simp
qed

theorem getSuccessRate_fraction_witness:
  "getSuccessRate (exampleNotification [RSent, RFailed, RDelivered])
     = Fin (2345624805922133 / 35184372088832)
   \<and> getSuccessRate (exampleNotification []) = Fin 0
   \<and> getSuccessRate (exampleNotification (replicate 11 RDelivered @ replicate 9 RBounced))
     = Fin (7740561859543041 / 140737488355328)"
proof -
  have a: "map rs_status (recipients (exampleNotification [RSent, RFailed, RDelivered]))
             = [RSent, RFailed, RDelivered]"
    by (simp add: exampleNotification_def exampleRecipient_def)
  have b: "recipients (exampleNotification []) = []"
    by (simp add: exampleNotification_def)
  let ?n = "exampleNotification (replicate 11 RDelivered @ replicate 9 RBounced)"
  have c: "recipients ?n \<noteq> []"
      "length (filter (\<lambda>r. rs_status r = RSent \<or> rs_status r = RDelivered) (recipients ?n)) = 11"
      "length (recipients ?n) = 20"
    by (simp_all add: exampleNotification_def exampleRecipient_def)
  from getSuccessRate_fraction[of "exampleNotification [RSent, RFailed, RDelivered]"] a
  have r1: "getSuccessRate (exampleNotification [RSent, RFailed, RDelivered])
     = Fin (2345624805922133 / 35184372088832)" by blast
  from getSuccessRate_fraction[of "exampleNotification []"] b
  have r2: "getSuccessRate (exampleNotification []) = Fin 0" by blast
  from getSuccessRate_fraction[of ?n]
  have "getSuccessRate ?n =
     (if recipients ?n = [] then Fin 0
      else num_mul
             (num_div
                (Fin (of_nat (length (filter (\<lambda>r. rs_status r = RSent \<or> rs_status r = RDelivered)
                                        (recipients ?n)))))
                (Fin (of_nat (length (recipients ?n)))))
             (Fin 100))" by blast
  then have "getSuccessRate ?n = num_mul (num_div (Fin 11) (Fin 20)) (Fin 100)"
    by (simp only: c if_False) simp
  then have r3: "getSuccessRate ?n = Fin (7740561859543041 / 140737488355328)"
    by (simp only: eleven_of_twenty_percent)
  from r1 r2 r3 show ?thesis by blast
qed

text \<open>
  C7: \<open>markAsSent\<close> sets the status to sent and \<open>sentAt\<close> to the time of the call;
  every pending recipient becomes sent with the time of its own visit, every other
  recipient is left as it is; and when the recipients are not empty and all pending, the
  success rate afterwards is 100.
\<close>

theorem markAsSent_roundtrip:
  "status (markAsSent now nowAt n) = Sent
   \<and> sentAt (markAsSent now nowAt n) = Some now
   \<and> length (recipients (markAsSent now nowAt n)) = length (recipients n)
   \<and> (\<forall>i < length (recipients n).
         (rs_status (recipients n ! i) = RPending \<longrightarrow>
            recipients (markAsSent now nowAt n) ! i =
              (recipients n ! i)\<lparr>rs_status := RSent, rs_sentAt := Some (nowAt i)\<rparr>)
       \<and> (rs_status (recipients n ! i) \<noteq> RPending \<longrightarrow>
            recipients (markAsSent now nowAt n) ! i = recipients n ! i))
   \<and> (recipients n \<noteq> [] \<and> (\<forall>r \<in> set (recipients n). rs_status r = RPending) \<longrightarrow>
        getSuccessRate (markAsSent now nowAt n) = Fin 100)"
proof -
  let ?rs = "recipients (markAsSent now nowAt n)"
  have len: "length ?rs = length (recipients n)"
    by (simp add: markAsSent_def)
  have each: "\<forall>i < length (recipients n).
         (rs_status (recipients n ! i) = RPending \<longrightarrow>
            ?rs ! i = (recipients n ! i)\<lparr>rs_status := RSent, rs_sentAt := Some (nowAt i)\<rparr>)
       \<and> (rs_status (recipients n ! i) \<noteq> RPending \<longrightarrow> ?rs ! i = recipients n ! i)"
    by (simp add: markAsSent_def nth_enumerate_eq)
  have rate: "getSuccessRate (markAsSent now nowAt n) = Fin 100"
    if ne: "recipients n \<noteq> []" and pend: "\<forall>r \<in> set (recipients n). rs_status r = RPending"
  proof -
    have "\<forall>r \<in> set ?rs. successful r"
      using pend by (auto simp: markAsSent_def successful_def in_set_enumerate_eq)
    then have f: "filter successful ?rs = ?rs" by simp
    have pos: "0 < length ?rs" using ne len by simp
    show ?thesis
      using pos all_percent[OF pos] by (simp add: getSuccessRate_def Let_def f)
  qed
  have "status (markAsSent now nowAt n) = Sent" "sentAt (markAsSent now nowAt n) = Some now"
    by (simp_all add: markAsSent_def)
  with len each rate show ?thesis by blast
qed

theorem markAsSent_roundtrip_witness:
  "getSuccessRate (markAsSent 1000 (\<lambda>i. 1001 + int i) (exampleNotification [RPending, RPending])) = Fin 100
   \<and> recipients (markAsSent 1000 (\<lambda>i. 1001 + int i) (exampleNotification [RDelivered, RPending])) ! 0
       = exampleRecipient RDelivered
   \<and> recipients (markAsSent 1000 (\<lambda>i. 1001 + int i) (exampleNotification [RDelivered, RPending])) ! 1
       = (exampleRecipient RPending)\<lparr>rs_status := RSent, rs_sentAt := Some 1002\<rparr>"
proof -
  let ?c = "\<lambda>i. 1001 + int i"
  have a: "recipients (exampleNotification [RPending, RPending]) \<noteq> []
       \<and> (\<forall>r \<in> set (recipients (exampleNotification [RPending, RPending])). rs_status r = RPending)"
    by (simp add: exampleNotification_def exampleRecipient_def)
  have b: "length (recipients (exampleNotification [RDelivered, RPending])) = 2"
      "recipients (exampleNotification [RDelivered, RPending]) ! 0 = exampleRecipient RDelivered"
      "recipients (exampleNotification [RDelivered, RPending]) ! 1 = exampleRecipient RPending"
    by (simp_all add: exampleNotification_def)
  have c: "rs_status (exampleRecipient RDelivered) \<noteq> RPending"
      "rs_status (exampleRecipient RPending) = RPending"
    by (simp_all add: exampleRecipient_def)
  note t1 = markAsSent_roundtrip[of 1000 ?c "exampleNotification [RPending, RPending]"]
  note t2 = markAsSent_roundtrip[of 1000 ?c "exampleNotification [RDelivered, RPending]"]
  from t1 a have r1: "getSuccessRate (markAsSent 1000 ?c (exampleNotification [RPending, RPending])) = Fin 100"
    by blast
  from t2 have all: "\<forall>i < length (recipients (exampleNotification [RDelivered, RPending])).
         (rs_status (recipients (exampleNotification [RDelivered, RPending]) ! i) = RPending \<longrightarrow>
            recipients (markAsSent 1000 ?c (exampleNotification [RDelivered, RPending])) ! i =
              (recipients (exampleNotification [RDelivered, RPending]) ! i)
                \<lparr>rs_status := RSent, rs_sentAt := Some (?c i)\<rparr>)
       \<and> (rs_status (recipients (exampleNotification [RDelivered, RPending]) ! i) \<noteq> RPending \<longrightarrow>
            recipients (markAsSent 1000 ?c (exampleNotification [RDelivered, RPending])) ! i
              = recipients (exampleNotification [RDelivered, RPending]) ! i)"
    by blast
  from all[rule_format, of 0] b c
  have r2: "recipients (markAsSent 1000 ?c (exampleNotification [RDelivered, RPending])) ! 0
       = exampleRecipient RDelivered" by simp
  from all[rule_format, of 1] b c
  have r3: "recipients (markAsSent 1000 ?c (exampleNotification [RDelivered, RPending])) ! 1
       = (exampleRecipient RPending)\<lparr>rs_status := RSent, rs_sentAt := Some 1002\<rparr>" by simp
  from r1 r2 r3 show ?thesis by blast
qed

text \<open>
  C9: \<open>incrementRetry\<close> adds 1 to the retry count of the notification and changes no
  other field of it but the recipients; a recipient whose status is failed has its
  retry count raised by 1 and nothing else changed, and every other recipient is left
  as it is.
\<close>

theorem incrementRetry_frame:
  "incrementRetry n = n\<lparr>retryCount := retryCount n + 1,
                         recipients := recipients (incrementRetry n)\<rparr>
   \<and> status (incrementRetry n) = status n
   \<and> length (recipients (incrementRetry n)) = length (recipients n)
   \<and> (\<forall>i < length (recipients n).
         (rs_status (recipients n ! i) = RFailed \<longrightarrow>
            recipients (incrementRetry n) ! i =
              (recipients n ! i)\<lparr>rs_retryCount := rs_retryCount (recipients n ! i) + 1\<rparr>)
       \<and> (rs_status (recipients n ! i) \<noteq> RFailed \<longrightarrow>
            recipients (incrementRetry n) ! i = recipients n ! i))"
  by (simp add: incrementRetry_def)

theorem incrementRetry_frame_witness:
  "retryCount (incrementRetry (exampleNotification [RSent, RFailed])) = 1
   \<and> recipients (incrementRetry (exampleNotification [RSent, RFailed])) ! 0 = exampleRecipient RSent
   \<and> recipients (incrementRetry (exampleNotification [RSent, RFailed])) ! 1
       = (exampleRecipient RFailed)\<lparr>rs_retryCount := 1\<rparr>"
proof -
  let ?n = "exampleNotification [RSent, RFailed]"
  have b: "length (recipients ?n) = 2" "retryCount ?n = 0"
      "recipients ?n ! 0 = exampleRecipient RSent"
      "recipients ?n ! 1 = exampleRecipient RFailed"
    by (simp_all add: exampleNotification_def)
  have c: "rs_status (exampleRecipient RSent) \<noteq> RFailed"
      "rs_status (exampleRecipient RFailed) = RFailed"
      "rs_retryCount (exampleRecipient RFailed) = 0"
    by (simp_all add: exampleRecipient_def)
  note t = incrementRetry_frame[of ?n]
  from t have eq: "incrementRetry ?n = ?n\<lparr>retryCount := retryCount ?n + 1,
                         recipients := recipients (incrementRetry ?n)\<rparr>" by blast
  have r0: "retryCount (incrementRetry ?n) = 1"
    by (subst eq) (simp add: b)
  from t have all: "\<forall>i < length (recipients ?n).
         (rs_status (recipients ?n ! i) = RFailed \<longrightarrow>
            recipients (incrementRetry ?n) ! i =
              (recipients ?n ! i)\<lparr>rs_retryCount := rs_retryCount (recipients ?n ! i) + 1\<rparr>)
       \<and> (rs_status (recipients ?n ! i) \<noteq> RFailed \<longrightarrow>
            recipients (incrementRetry ?n) ! i = recipients ?n ! i)" by blast
  from all[rule_format, of 0] b c
  have r1: "recipients (incrementRetry ?n) ! 0 = exampleRecipient RSent" by simp
  from all[rule_format, of 1] b c
  have r2: "recipients (incrementRetry ?n) ! 1 = (exampleRecipient RFailed)\<lparr>rs_retryCount := 1\<rparr>"
    by simp
  from r0 r1 r2 show ?thesis by blast
qed

section \<open>Field resolution and condition evaluation\<close>





lemma split_str_nonempty: "split_str sep s \<noteq> []"
  by (induction s) (auto split: list.splits)

lemma split_str_no_separator: "sep \<notin> set s \<Longrightarrow> split_str sep s = [s]"
  by (induction s) auto

lemma split_str_key: "sep \<notin> set k \<Longrightarrow> split_str sep (k @ sep # rest) = k # split_str sep rest"
  by (induction k) auto

lemma reduceSteps_null: "reduceSteps rt JNull ks = Inr JNull"
  by (induction ks) (simp_all add: getNestedStep_def)

lemma reduceSteps_append:
  "reduceSteps rt current (ks @ ls) =
     (case reduceSteps rt current ks of
        Inl e \<Rightarrow> Inl e
      | Inr v \<Rightarrow> reduceSteps rt v ls)"
  by (induction ks arbitrary: current) (simp_all split: sum.splits)

lemma getNestedStep_defined: "getNestedStep rt current key \<noteq> Inr JUndefined"
  by (simp add: getNestedStep_def split: sum.splits)

lemma getNestedStep_absent:
  "\<not> truthy current \<or> (ownProperty current key = None \<and> inherited rt current key = Absent)
   \<Longrightarrow> getNestedStep rt current key = Inr JNull"
  by (auto simp: getNestedStep_def getProperty_def)

lemma getNestedStep_own:
  "truthy current \<Longrightarrow> ownProperty current key = Some v \<Longrightarrow>
     getNestedStep rt current key = Inr (if v = JUndefined then JNull else v)"
  by (simp add: getNestedStep_def getProperty_def)

lemma getNestedStep_inherited:
  "truthy current \<Longrightarrow> ownProperty current key = None \<Longrightarrow>
     getNestedStep rt current key = orNull (inherited rt current key)"
  by (simp add: getNestedStep_def getProperty_def orNull_def split: lookup.splits)

lemma getNestedValue_key:
  "CHR ''.'' \<notin> set key \<Longrightarrow> getNestedValue rt obj key = getNestedStep rt obj key"
  by (simp add: getNestedValue_def split_str_no_separator split: sum.splits)

lemma getNestedValue_dot:
  "CHR ''.'' \<notin> set key \<Longrightarrow>
     getNestedValue rt obj (key @ ''.'' @ rest) =
       (case getNestedValue rt obj key of
          Inl e \<Rightarrow> Inl e
        | Inr v \<Rightarrow> getNestedValue rt v rest)"
  using split_str_key[of "CHR ''.''" key rest]
  by (simp add: getNestedValue_key) (simp add: getNestedValue_def split: sum.splits)

lemma getNestedValue_falsy: "\<not> truthy obj \<Longrightarrow> getNestedValue rt obj path = Inr JNull"
proof -
  assume f: "\<not> truthy obj"
  obtain k ks where s: "split_str (CHR ''.'') path = k # ks"
    using split_str_nonempty[of "CHR ''.''" path] by (cases "split_str (CHR ''.'') path") auto
  show ?thesis
    using f by (simp add: getNestedValue_def s getNestedStep_def reduceSteps_null)
qed

lemma getNestedValue_defined: "getNestedValue rt obj path \<noteq> Inr JUndefined"
proof -
  obtain ks k where "split_str (CHR ''.'') path = ks @ [k]"
    using split_str_nonempty[of "CHR ''.''" path] by (metis rev_exhaust)
  then show ?thesis
    using getNestedStep_defined[of rt _ k]
    by (auto simp: getNestedValue_def reduceSteps_append split: sum.splits)
qed

lemma getNestedValue_missing_key:
  assumes "map_of ps k = None" "inherited rt (JObj ps) k = Absent" "CHR ''.'' \<notin> set k"
  shows "getNestedValue rt (JObj ps) k = Inr JNull"
  using assms by (simp add: getNestedValue_def split_str_no_separator getNestedStep_absent)

lemma everyCondition_True:
  "everyCondition rt data cs = Inr True \<Longrightarrow> c \<in> set cs \<Longrightarrow>
     \<exists>v. getNestedValue rt data (field c) = Inr v \<and> evalCondition rt c v = Inr True"
  by (induction cs) (auto split: sum.splits if_splits)

lemma missing_key_sample:
  "getNestedValue sampleRuntime (JObj []) ''rating'' = Inr JNull"
  by (simp add: getNestedValue_def getNestedStep_def getProperty_def sampleRuntime_def)

text \<open>Decimal numerals are exactly the property names that are array indices.\<close>

lemma digit_char:
  assumes "d < 10"
  shows "isDigit (char_of (48 + d))" "(of_char (char_of (48 + d)) :: nat) = 48 + d"
  using assms by (simp_all add: isDigit_def)

lemma digit_char_inverse:
  assumes "isDigit c"
  shows "(of_char c :: nat) - 48 < 10" "char_of (48 + ((of_char c :: nat) - 48)) = c"
proof -
  from assms have b: "48 \<le> (of_char c :: nat)" "(of_char c :: nat) \<le> 57"
    by (simp_all add: isDigit_def)
  from b show "(of_char c :: nat) - 48 < 10" by arith
  from b have "48 + ((of_char c :: nat) - 48) = of_char c" by arith
  then show "char_of (48 + ((of_char c :: nat) - 48)) = c" by simp
qed

lemma digitsValue_snoc: "digitsValue (s @ [c]) = 10 * digitsValue s + ((of_char c :: nat) - 48)"
  by (simp add: digitsValue_def)

lemma digitsValue_single: "digitsValue [c] = (of_char c :: nat) - 48"
  by (simp add: digitsValue_def)

lemma decimal_digits: "list_all isDigit (decimal n)"
proof (induction n rule: decimal.induct)
  case (1 n)
  show ?case
  proof (cases "n < 10")
    case True
    then show ?thesis by (subst decimal.simps) (simp add: digit_char)
  next
    case False
    have "n mod 10 < 10" by simp
    from digit_char(1)[OF this] 1[OF False] False show ?thesis
      by (subst decimal.simps) simp
  qed
qed

lemma decimal_nonempty: "decimal n \<noteq> []"
  by (subst decimal.simps) simp

lemma decimal_value: "digitsValue (decimal n) = n"
proof (induction n rule: decimal.induct)
  case (1 n)
  show ?case
  proof (cases "n < 10")
    case True
    then show ?thesis by (subst decimal.simps) (simp add: digitsValue_single digit_char)
  next
    case False
    have "n mod 10 < 10" by simp
    from digit_char(2)[OF this] 1[OF False] False show ?thesis
      by (subst decimal.simps) (simp add: digitsValue_snoc)
  qed
qed

lemma decimal_hd: "0 < n \<Longrightarrow> hd (decimal n) \<noteq> CHR ''0''"
proof (induction n rule: decimal.induct)
  case (1 n)
  show ?case
  proof (cases "n < 10")
    case True
    have "(of_char (hd (decimal n)) :: nat) = 48 + n"
      using True by (subst decimal.simps) (simp add: digit_char)
    with 1(2) show ?thesis by auto
  next
    case False
    then have "0 < n div 10" by simp
    from 1(1)[OF False this] False show ?thesis
      by (subst decimal.simps) (simp add: decimal_nonempty)
  qed
qed

lemma decimal_zero: "decimal 0 = ''0''"
  by (subst decimal.simps) code_simp

lemma arrayIndex_decimal: "arrayIndex (decimal n) = Some n"
proof (cases "n = 0")
  case True
  then show ?thesis
    by (simp add: arrayIndex_def decimal_zero decimal_value[of 0, unfolded decimal_zero] isDigit_def)
next
  case False
  then show ?thesis
    using decimal_hd[of n] by (simp add: arrayIndex_def decimal_digits decimal_nonempty decimal_value)
qed

lemma isDigit_not_dot: "isDigit c \<Longrightarrow> c \<noteq> CHR ''.''"
  by (auto simp: isDigit_def)

lemma isDigit_not_l: "isDigit c \<Longrightarrow> c \<noteq> CHR ''l''"
  by (auto simp: isDigit_def)

lemma decimal_no_dot: "CHR ''.'' \<notin> set (decimal n)"
  using decimal_digits[of n] isDigit_not_dot by (auto simp: list_all_iff)

lemma decimal_not_length: "decimal n \<noteq> ''length''"
proof
  assume "decimal n = ''length''"
  with decimal_digits[of n] have "isDigit (CHR ''l'')" by simp
  then show False using isDigit_not_l by blast
qed

lemma digitsValue_positive:
  "list_all isDigit k \<Longrightarrow> k \<noteq> [] \<Longrightarrow> hd k \<noteq> CHR ''0'' \<Longrightarrow> 0 < digitsValue k"
proof (induction k rule: rev_induct)
  case Nil
  then show ?case by simp
next
  case (snoc c k)
  show ?case
  proof (cases "k = []")
    case True
    with snoc.prems have "isDigit c" "c \<noteq> CHR ''0''" by simp_all
    then have ge: "48 \<le> (of_char c :: nat)" by (simp add: isDigit_def)
    have "(of_char c :: nat) \<noteq> 48"
    proof
      assume "(of_char c :: nat) = 48"
      then have "char_of (of_char c :: nat) = char_of (48 :: nat)" by (rule arg_cong)
      moreover have "char_of (48 :: nat) = CHR ''0''" by code_simp
      ultimately show False using \<open>c \<noteq> CHR ''0''\<close> by simp
    qed
    with ge have "48 < (of_char c :: nat)" by simp
    then show ?thesis using True by (simp add: digitsValue_single)
  next
    case False
    with snoc have "0 < digitsValue k" by simp
    then show ?thesis by (simp add: digitsValue_snoc)
  qed
qed

lemma decimal_digitsValue:
  "list_all isDigit k \<Longrightarrow> k \<noteq> [] \<Longrightarrow> k = ''0'' \<or> hd k \<noteq> CHR ''0'' \<Longrightarrow> decimal (digitsValue k) = k"
proof (induction k rule: rev_induct)
  case Nil
  then show ?case by simp
next
  case (snoc c k)
  from snoc.prems have c: "isDigit c" by simp
  note d = digit_char_inverse[OF c]
  show ?case
  proof (cases "k = []")
    case True
    then show ?thesis
      using d by (subst decimal.simps) (simp add: digitsValue_single)
  next
    case False
    with snoc.prems have k: "list_all isDigit k" "hd k \<noteq> CHR ''0''" by auto
    from digitsValue_positive[OF k(1) False k(2)] have pos: "0 < digitsValue k" .
    from snoc.IH[OF k(1) False] k(2) have ih: "decimal (digitsValue k) = k" by simp
    have v: "digitsValue (k @ [c]) = 10 * digitsValue k + ((of_char c :: nat) - 48)"
      by (rule digitsValue_snoc)
    have ge: "\<not> digitsValue (k @ [c]) < 10" using pos v by simp
    have dv: "digitsValue (k @ [c]) div 10 = digitsValue k"
      and md: "digitsValue (k @ [c]) mod 10 = (of_char c :: nat) - 48"
      using d(1) v by simp_all
    show ?thesis
      by (subst decimal.simps) (simp only: ge if_False dv md ih d(2))
  qed
qed

lemma arrayIndex_Some: "arrayIndex k = Some i \<Longrightarrow> k = decimal i"
  using decimal_digitsValue[of k] by (auto simp: arrayIndex_def split: if_splits)

lemma ownProperty_other:
  assumes "key \<noteq> ''length''" "\<forall>i < n. key \<noteq> decimal i"
  shows "(case arrayIndex key of None \<Rightarrow> None | Some i \<Rightarrow> if i < n then Some (f i) else None) = None"
proof (cases "arrayIndex key")
  case None
  then show ?thesis by simp
next
  case (Some i)
  from arrayIndex_Some[OF Some] assms(2) have "\<not> i < n" by auto
  with Some show ?thesis by simp
qed

text \<open>
  C3, as the claim states it, fails: the payload \<open>{"name": "abc"}\<close> and the path
  \<open>name.length\<close> reach the string \<open>abc\<close>, which is no mapping, and resolve to its
  length 3, not to null.
\<close>

theorem getNestedValue_string_container:
  "getNestedValue sampleRuntime (JObj [(''name'', JStr ''abc'')]) ''name.length''
     = Inr (JNum (Fin 3))"
  by (simp add: getNestedValue_def getNestedStep_def getProperty_def sampleRuntime_def)

text \<open>
  C3, amended: the path is split at the dots and its segments are read one after the
  other, each as a property of the value reached so far: the result of \<open>key.rest\<close> is
  the result of \<open>rest\<close> on the result of \<open>key\<close>, and an exception ends the
  resolution. The result is never undefined. On a falsy value (null, undefined, false,
  0, NaN, the empty string) every path gives null. On an object a key gives the value of
  the object's own property, else the value of the property it inherits, and null when
  that value is undefined or when there is no such property. A truthy value that is no
  mapping is read in the same way and does not give null by itself: a non-empty string
  and an array resolve \<open>length\<close> to their length and an index below it to the
  character or the element there (null for an undefined element); every other key of
  theirs, and every key of \<open>true\<close>, of a number other than 0 and NaN and of a runtime
  value, resolves as the inherited property does.
\<close>

theorem getNestedValue_resolution:
  "getNestedValue rt obj path \<noteq> Inr JUndefined
   \<and> (obj = JNull \<or> obj = JUndefined \<or> obj = JBool False \<or> obj = JNum (Fin 0)
        \<or> obj = JNum NaN \<or> obj = JStr [] \<longrightarrow>
      getNestedValue rt obj path = Inr JNull)
   \<and> (CHR ''.'' \<notin> set key \<longrightarrow>
        getNestedValue rt obj (key @ ''.'' @ rest) =
          (case getNestedValue rt obj key of
             Inl e \<Rightarrow> Inl e
           | Inr v \<Rightarrow> getNestedValue rt v rest)
      \<and> getNestedValue rt (JObj ps) key =
          (case map_of ps key of
             Some v \<Rightarrow> Inr (if v = JUndefined then JNull else v)
           | None \<Rightarrow> orNull (inherited rt (JObj ps) key))
      \<and> (s \<noteq> [] \<and> key \<noteq> ''length'' \<and> (\<forall>i < length s. key \<noteq> decimal i) \<longrightarrow>
           getNestedValue rt (JStr s) key = orNull (inherited rt (JStr s) key))
      \<and> (key \<noteq> ''length'' \<and> (\<forall>i < length xs. key \<noteq> decimal i) \<longrightarrow>
           getNestedValue rt (JArr xs) key = orNull (inherited rt (JArr xs) key))
      \<and> (obj = JBool True \<or> (obj = JNum n \<and> n \<noteq> Fin 0 \<and> n \<noteq> NaN) \<or> obj = JNative f \<longrightarrow>
           getNestedValue rt obj key = orNull (inherited rt obj key)))
   \<and> (s \<noteq> [] \<longrightarrow>
        getNestedValue rt (JStr s) ''length'' = Inr (JNum (Fin (of_nat (length s)))))
   \<and> (j < length s \<longrightarrow> getNestedValue rt (JStr s) (decimal j) = Inr (JStr [s ! j]))
   \<and> getNestedValue rt (JArr xs) ''length'' = Inr (JNum (Fin (of_nat (length xs))))
   \<and> (j < length xs \<longrightarrow>
        getNestedValue rt (JArr xs) (decimal j)
          = Inr (if xs ! j = JUndefined then JNull else xs ! j))"
proof -
  have falsy: "getNestedValue rt obj path = Inr JNull"
    if "obj = JNull \<or> obj = JUndefined \<or> obj = JBool False \<or> obj = JNum (Fin 0)
        \<or> obj = JNum NaN \<or> obj = JStr []"
    using that by (auto intro: getNestedValue_falsy)
  have obj: "getNestedValue rt (JObj ps) key =
          (case map_of ps key of
             Some v \<Rightarrow> Inr (if v = JUndefined then JNull else v)
           | None \<Rightarrow> orNull (inherited rt (JObj ps) key))"
    if "CHR ''.'' \<notin> set key"
    using that
    by (cases "map_of ps key")
       (simp_all add: getNestedValue_key getNestedStep_own getNestedStep_inherited)
  have str: "getNestedValue rt (JStr s) key = orNull (inherited rt (JStr s) key)"
    if "CHR ''.'' \<notin> set key" "s \<noteq> []" "key \<noteq> ''length''" "\<forall>i < length s. key \<noteq> decimal i"
  proof -
    have "ownProperty (JStr s) key = None"
      using that(3) ownProperty_other[OF that(3,4), of "\<lambda>i. JStr [s ! i]"] by simp
    then show ?thesis using that(1,2) by (simp add: getNestedValue_key getNestedStep_inherited)
  qed
  have arr: "getNestedValue rt (JArr xs) key = orNull (inherited rt (JArr xs) key)"
    if "CHR ''.'' \<notin> set key" "key \<noteq> ''length''" "\<forall>i < length xs. key \<noteq> decimal i"
  proof -
    have "ownProperty (JArr xs) key = None"
      using that(2) ownProperty_other[OF that(2,3), of "\<lambda>i. xs ! i"] by simp
    then show ?thesis using that(1) by (simp add: getNestedValue_key getNestedStep_inherited)
  qed
  have oth: "getNestedValue rt obj key = orNull (inherited rt obj key)"
    if "CHR ''.'' \<notin> set key"
      "obj = JBool True \<or> (obj = JNum n \<and> n \<noteq> Fin 0 \<and> n \<noteq> NaN) \<or> obj = JNative f"
    using that by (auto simp: getNestedValue_key getNestedStep_inherited)
  have nodot: "CHR ''.'' \<notin> set ''length''" by simp
  have slen: "getNestedValue rt (JStr s) ''length'' = Inr (JNum (Fin (of_nat (length s))))"
    if "s \<noteq> []"
    using that by (simp add: getNestedValue_key[OF nodot] getNestedStep_own)
  have sidx: "getNestedValue rt (JStr s) (decimal j) = Inr (JStr [s ! j])" if "j < length s"
  proof -
    have "ownProperty (JStr s) (decimal j) = Some (JStr [s ! j])"
      using that by (simp add: decimal_not_length arrayIndex_decimal)
    moreover have "truthy (JStr s)" using that by auto
    ultimately show ?thesis
      by (simp add: getNestedValue_key[OF decimal_no_dot] getNestedStep_own)
  qed
  have alen: "getNestedValue rt (JArr xs) ''length'' = Inr (JNum (Fin (of_nat (length xs))))"
    by (simp add: getNestedValue_key[OF nodot] getNestedStep_own)
  have aidx: "getNestedValue rt (JArr xs) (decimal j)
          = Inr (if xs ! j = JUndefined then JNull else xs ! j)" if "j < length xs"
  proof -
    have "ownProperty (JArr xs) (decimal j) = Some (xs ! j)"
      using that by (simp add: decimal_not_length arrayIndex_decimal)
    then show ?thesis
      by (simp add: getNestedValue_key[OF decimal_no_dot] getNestedStep_own)
  qed
  from getNestedValue_defined[of rt obj path] falsy getNestedValue_dot[of key rt obj rest]
    obj str arr oth slen sidx alen aidx
  show ?thesis by blast
qed

theorem getNestedValue_resolution_witness:
  "getNestedValue sampleRuntime
     (JObj [(''user'', JObj [(''name'', JStr ''abc''), (''age'', JNum (Fin 0))])]) ''user.name.length''
     = Inr (JNum (Fin 3))
   \<and> getNestedValue sampleRuntime
     (JObj [(''user'', JObj [(''name'', JStr ''abc''), (''age'', JNum (Fin 0))])]) ''user.age.x''
     = Inr JNull
   \<and> getNestedValue sampleRuntime
     (JObj [(''user'', JObj [(''name'', JStr ''abc''), (''age'', JNum (Fin 0))])]) ''user.email''
     = Inr JNull
   \<and> getNestedValue sampleRuntime (JArr [JStr ''a'', JStr ''b'']) ''1'' = Inr (JStr ''b'')
   \<and> getNestedValue sampleRuntime (JStr ''abc'') ''2'' = Inr (JStr ''c'')
   \<and> getNestedValue sampleRuntime (JArr [JStr ''a'', JStr ''b'']) ''2'' = Inr JNull"
proof -
  let ?u = "JObj [(''name'', JStr ''abc''), (''age'', JNum (Fin 0))]"
  let ?obj = "JObj [(''user'', ?u)]"
  let ?xs = "[JStr ''a'', JStr ''b'']"
  have d: "decimal 1 = ''1''" "decimal 2 = ''2''" "decimal 0 = ''0''" "decimal (Suc 0) = ''1''"
    by (subst decimal.simps, code_simp)+
  have k: "CHR ''.'' \<notin> set ''user''" "CHR ''.'' \<notin> set ''name''" "CHR ''.'' \<notin> set ''age''"
    "CHR ''.'' \<notin> set ''email''" "CHR ''.'' \<notin> set ''2''"
    by simp_all
  have p: "''user.name.length'' = ''user'' @ ''.'' @ ''name.length''"
    "''name.length'' = ''name'' @ ''.'' @ ''length''"
    "''user.age.x'' = ''user'' @ ''.'' @ ''age.x''"
    "''age.x'' = ''age'' @ ''.'' @ ''x''"
    "''user.email'' = ''user'' @ ''.'' @ ''email''"
    by simp_all
  have ab: "orNull (inherited sampleRuntime v key) = Inr JNull" for v key
    by (simp add: orNull_def sampleRuntime_def)
  note t = getNestedValue_resolution[where rt = sampleRuntime]
  from t[where key = "''user''" and ps = "[(''user'', ?u)]"] k
  have u: "getNestedValue sampleRuntime ?obj ''user'' = Inr ?u" by simp
  from t[where key = "''name''" and ps = "[(''name'', JStr ''abc''), (''age'', JNum (Fin 0))]"] k
  have n: "getNestedValue sampleRuntime ?u ''name'' = Inr (JStr ''abc'')" by simp
  from t[where key = "''age''" and ps = "[(''name'', JStr ''abc''), (''age'', JNum (Fin 0))]"] k
  have a: "getNestedValue sampleRuntime ?u ''age'' = Inr (JNum (Fin 0))" by simp
  from t[where key = "''email''" and ps = "[(''name'', JStr ''abc''), (''age'', JNum (Fin 0))]"] k
  have e: "getNestedValue sampleRuntime ?u ''email'' = Inr JNull" by (simp add: ab)
  from t[where s = "''abc''"]
  have l: "getNestedValue sampleRuntime (JStr ''abc'') ''length'' = Inr (JNum (Fin 3))" by simp
  from t[where obj = "JNum (Fin 0)" and path = "''x''"]
  have z: "getNestedValue sampleRuntime (JNum (Fin 0)) ''x'' = Inr JNull" by simp
  from t[where obj = ?u and key = "''name''" and rest = "''length''"] k n l
  have nl: "getNestedValue sampleRuntime ?u ''name.length'' = Inr (JNum (Fin 3))"
    by (simp only: p(2)[symmetric]) simp
  from t[where obj = ?obj and key = "''user''" and rest = "''name.length''"] k u nl
  have r1: "getNestedValue sampleRuntime ?obj ''user.name.length'' = Inr (JNum (Fin 3))"
    by (simp only: p(1)[symmetric]) simp
  from t[where obj = ?u and key = "''age''" and rest = "''x''"] k a z
  have ax: "getNestedValue sampleRuntime ?u ''age.x'' = Inr JNull"
    by (simp only: p(4)[symmetric]) simp
  from t[where obj = ?obj and key = "''user''" and rest = "''age.x''"] k u ax
  have r2: "getNestedValue sampleRuntime ?obj ''user.age.x'' = Inr JNull"
    by (simp only: p(3)[symmetric]) simp
  from t[where obj = ?obj and key = "''user''" and rest = "''email''"] k u e
  have r3: "getNestedValue sampleRuntime ?obj ''user.email'' = Inr JNull"
    by (simp only: p(5)[symmetric]) simp
  from t[where xs = ?xs and j = 1]
  have r4: "getNestedValue sampleRuntime (JArr ?xs) ''1'' = Inr (JStr ''b'')"
    by (simp add: d)
  from t[where s = "''abc''" and j = 2]
  have r5: "getNestedValue sampleRuntime (JStr ''abc'') ''2'' = Inr (JStr ''c'')"
    by (simp add: d)
  have nd: "\<forall>i < length ?xs. ''2'' \<noteq> decimal i"
    by (simp add: less_Suc_eq d)
  from t[where xs = ?xs and key = "''2''"] k nd
  have r6: "getNestedValue sampleRuntime (JArr ?xs) ''2'' = Inr JNull"
    by (simp add: ab)
  from r1 r2 r3 r4 r5 r6 show ?thesis by blast
qed






text \<open>
  C4, as the claim states it, fails: the null of a missing field becomes the text
  \<open>null\<close>, not the empty text, so \<open>contains "null"\<close> matches a missing field,
  and the conditions of a rule with that one condition hold on the empty payload.
\<close>

theorem contains_null_text_matches_missing_field:
  "getNestedValue sampleRuntime (JObj []) ''rating'' = Inr JNull
   \<and> evalCondition sampleRuntime
       \<lparr>field = ''rating'', operator = ''contains'', cvalue = JStr ''null''\<rparr> JNull = Inr True
   \<and> evaluateConditions sampleRuntime
       (exampleRule ''r6'' True
          [\<lparr>field = ''rating'', operator = ''contains'', cvalue = JStr ''null''\<rparr>] [])
       (JObj []) = Inr True"
  by (simp add: missing_key_sample evaluateConditions_def exampleRule_def evalCondition_def
      lowerIncludes_def toLowerCase_def lowerChar_def str_includes_def)

text \<open>
  C4, amended: for \<open>contains\<close> and \<open>not_contains\<close> a null field value is converted
  with \<open>String\<close>, which gives the text \<open>null\<close>. So \<open>contains\<close> holds exactly when
  the text of the condition value, in lower case, is a part of \<open>null\<close>, and
  \<open>not_contains\<close> exactly when it is not. A key that an object neither has nor
  inherits resolves to null.
\<close>

theorem contains_null_field:
  assumes "operator c = ''contains'' \<or> operator c = ''not_contains''"
    and "ToString rt (cvalue c) = Inr t"
  shows "evalCondition rt c JNull =
           Inr (if operator c = ''contains'' then sublist (toLowerCase t) ''null''
                else \<not> sublist (toLowerCase t) ''null'')
       \<and> (map_of ps (field c) = None \<and> inherited rt (JObj ps) (field c) = Absent
            \<and> CHR ''.'' \<notin> set (field c) \<longrightarrow>
            getNestedValue rt (JObj ps) (field c) = Inr JNull)"
proof -
  have low: "toLowerCase ''null'' = ''null''"
    by (simp add: toLowerCase_def lowerChar_def)
  have "lowerIncludes rt JNull (cvalue c) = Inr (sublist (toLowerCase t) ''null'')"
    using assms(2) by (simp add: lowerIncludes_def low str_includes_def)
  then have "evalCondition rt c JNull =
           Inr (if operator c = ''contains'' then sublist (toLowerCase t) ''null''
                else \<not> sublist (toLowerCase t) ''null'')"
    using assms(1) by (auto simp: evalCondition_def)
  with getNestedValue_missing_key[of ps "field c" rt] show ?thesis by blast
qed

theorem contains_null_field_witness:
  "evalCondition sampleRuntime
     \<lparr>field = ''comment'', operator = ''not_contains'', cvalue = JStr ''NU''\<rparr> JNull = Inr False
   \<and> evalCondition sampleRuntime
     \<lparr>field = ''comment'', operator = ''not_contains'', cvalue = JStr ''bad''\<rparr> JNull = Inr True
   \<and> getNestedValue sampleRuntime (JObj [])
       (field \<lparr>field = ''comment'', operator = ''not_contains'', cvalue = JStr ''NU''\<rparr>)
       = Inr JNull"
proof -
  let ?c = "\<lparr>field = ''comment'', operator = ''not_contains'', cvalue = JStr ''NU''\<rparr>"
  let ?d = "\<lparr>field = ''comment'', operator = ''not_contains'', cvalue = JStr ''bad''\<rparr>"
  have opc: "operator ?c = ''contains'' \<or> operator ?c = ''not_contains''" by simp
  have opd: "operator ?d = ''contains'' \<or> operator ?d = ''not_contains''" by simp
  have tc: "ToString sampleRuntime (cvalue ?c) = Inr ''NU''" by simp
  have td: "ToString sampleRuntime (cvalue ?d) = Inr ''bad''" by simp
  have lc: "toLowerCase ''NU'' = ''nu''" "toLowerCase ''bad'' = ''bad''"
    by code_simp+
  have sl: "sublist ''nu'' ''null''" "\<not> sublist ''bad'' ''null''"
    by code_simp+
  have h: "map_of [] (field ?c) = None \<and> inherited sampleRuntime (JObj []) (field ?c) = Absent
      \<and> CHR ''.'' \<notin> set (field ?c)"
    by (simp add: sampleRuntime_def)
  note t1 = contains_null_field[OF opc tc, of "[]"]
  note t2 = contains_null_field[OF opd td, of "[]"]
  from t1 have r1: "evalCondition sampleRuntime ?c JNull = Inr False"
    by (simp add: lc sl)
  from t2 have r2: "evalCondition sampleRuntime ?d JNull = Inr True"
    by (simp add: lc sl)
  from t1 h have r3: "getNestedValue sampleRuntime (JObj []) (field ?c) = Inr JNull" by blast
  from r1 r2 r3 show ?thesis by blast
qed

text \<open>
  C10: a condition with the operator \<open>in\<close> or \<open>not_in\<close> whose value is not an array
  evaluates to false for every field value; so a rule that has such a condition never
  has its conditions hold, whatever the payload.
\<close>

theorem in_not_in_scalar_value:
  assumes "operator c = ''in'' \<or> operator c = ''not_in''" and "\<not> isArray (cvalue c)"
  shows "evalCondition rt c fieldValue = Inr False
         \<and> (c \<in> set (conditions r) \<longrightarrow> evaluateConditions rt r data \<noteq> Inr True)"
proof -
  have ev: "evalCondition rt c v = Inr False" for v
    using assms by (auto simp: evalCondition_def isArray_def split: jsval.splits)
  have "evaluateConditions rt r data \<noteq> Inr True" if mem: "c \<in> set (conditions r)"
  proof
    assume "evaluateConditions rt r data = Inr True"
    then obtain v where "evalCondition rt c v = Inr True"
      using mem everyCondition_True[of rt data "conditions r" c]
      by (auto simp: evaluateConditions_def)
    with ev show False by simp
  qed
  with ev show ?thesis by blast
qed

theorem in_not_in_scalar_value_witness:
  "evalCondition sampleRuntime
     \<lparr>field = ''tier'', operator = ''not_in'', cvalue = JStr ''gold''\<rparr> (JStr ''silver'') = Inr False
   \<and> evalCondition sampleRuntime
     \<lparr>field = ''tier'', operator = ''in'', cvalue = JStr ''gold''\<rparr> (JStr ''gold'') = Inr False
   \<and> evaluateConditions sampleRuntime
       (exampleRule ''r4'' True [\<lparr>field = ''tier'', operator = ''not_in'', cvalue = JStr ''gold''\<rparr>] [])
       (JObj [(''tier'', JStr ''silver'')]) \<noteq> Inr True"
proof -
  let ?c = "\<lparr>field = ''tier'', operator = ''not_in'', cvalue = JStr ''gold''\<rparr>"
  let ?d = "\<lparr>field = ''tier'', operator = ''in'', cvalue = JStr ''gold''\<rparr>"
  have opc: "operator ?c = ''in'' \<or> operator ?c = ''not_in''" by simp
  have opd: "operator ?d = ''in'' \<or> operator ?d = ''not_in''" by simp
  have nc: "\<not> isArray (cvalue ?c)" "\<not> isArray (cvalue ?d)" by (simp_all add: isArray_def)
  have mem: "?c \<in> set (conditions (exampleRule ''r4'' True [?c] []))"
    by (simp add: exampleRule_def)
  note t1 = in_not_in_scalar_value[OF opc nc(1), of sampleRuntime "JStr ''silver''"
      "exampleRule ''r4'' True [?c] []" "JObj [(''tier'', JStr ''silver'')]"]
  note t2 = in_not_in_scalar_value[OF opd nc(2), of sampleRuntime "JStr ''gold''"]
  from t1 mem t2 show ?thesis by blast
qed

section \<open>The time window\<close>

lemma num_le_Fin: "num_le (Fin x) (Fin y) = (x \<le> y)"
  by (auto simp: num_le_def)

lemma num_ge_Fin: "num_ge (Fin x) (Fin y) = (y \<le> x)"
  by (simp add: num_ge_def num_le_Fin)

lemma minutes_of_day:
  assumes "h < 100" "m < 100"
  shows "num_add (num_mul (Fin (of_nat h)) (Fin 60)) (Fin (of_nat m)) = Fin (of_nat (h * 60 + m))"
proof -
  have a: "h * 60 \<le> 2 ^ 53" "h * 60 + m \<le> 2 ^ 53" using assms by simp_all
  have "num_mul (Fin (of_nat h)) (Fin (of_nat 60)) = Fin (of_nat (h * 60))"
    by (rule num_mul_nat[OF a(1)])
  then have "num_mul (Fin (of_nat h)) (Fin 60) = Fin (of_nat (h * 60))" by simp
  then show ?thesis using num_add_nat[OF a(2)] by simp
qed

lemma isDigit_not_colon: "isDigit c \<Longrightarrow> c \<noteq> CHR '':''"
  by (auto simp: isDigit_def)

lemma twoDigits_number:
  assumes "n < 100"
  shows "StringToNumber rt (twoDigits n) = Fin (of_nat n)" "CHR '':'' \<notin> set (twoDigits n)"
proof -
  have d: "n div 10 < 10" "n mod 10 < 10" using assms by simp_all
  note c = digit_char[OF d(1)] digit_char[OF d(2)]
  have v: "digitsValue (twoDigits n) = n"
    using c(2,4) by (simp add: twoDigits_def digitsValue_def)
  show "StringToNumber rt (twoDigits n) = Fin (of_nat n)"
    unfolding StringToNumber_def v using c(1,3) by (simp add: twoDigits_def)
  show "CHR '':'' \<notin> set (twoDigits n)"
    using isDigit_not_colon[OF c(1)] isDigit_not_colon[OF c(3)] by (auto simp: twoDigits_def)
qed

lemma parseTime_twoDigits:
  assumes "h < 100" "m < 100"
  shows "parseTime rt (twoDigits h @ '':'' @ twoDigits m) = Fin (of_nat (h * 60 + m))"
proof -
  note th = twoDigits_number(1)[OF assms(1), of rt] and tm = twoDigits_number(1)[OF assms(2), of rt]
  note ch = twoDigits_number(2)[OF assms(1)] and cm = twoDigits_number(2)[OF assms(2)]
  have "split_str (CHR '':'') (twoDigits h @ '':'' @ twoDigits m) = [twoDigits h, twoDigits m]"
    using split_str_key[OF ch, of "twoDigits m"] split_str_no_separator[OF cm] by simp
  then show ?thesis
    using minutes_of_day[OF assms]
    by (simp add: parseTime_def th tm del: num_mul.simps num_add.simps)
qed

lemma twoDigits_examples:
  "twoDigits 22 = ''22''" "twoDigits 0 = ''00''" "twoDigits 6 = ''06''"
  "twoDigits 9 = ''09''" "twoDigits 17 = ''17''"
  unfolding twoDigits_def by code_simp+

lemma parseTime_examples:
  "parseTime rt ''22:00'' = Fin 1320" "parseTime rt ''06:00'' = Fin 360"
  "parseTime rt ''09:00'' = Fin 540" "parseTime rt ''17:00'' = Fin 1020"
  using parseTime_twoDigits[of 22 0 rt] parseTime_twoDigits[of 6 0 rt]
    parseTime_twoDigits[of 9 0 rt] parseTime_twoDigits[of 17 0 rt]
  by (simp_all add: twoDigits_examples)

text \<open>
  C8: a rule without a start or without an end (missing or empty) is in its window.
  With both, parsed to the minutes \<open>s\<close> and \<open>e\<close>, and with \<open>h:m\<close> the current time
  in the time zone of the rule, which is UTC when the rule names none, the rule is in
  its window exactly when \<open>s \<le> h * 60 + m \<le> e\<close> if \<open>s \<le> e\<close>, and exactly when
  \<open>h * 60 + m \<ge> s\<close> or \<open>h * 60 + m \<le> e\<close> if \<open>s > e\<close>. A text \<open>HH:MM\<close> is parsed
  to the minutes \<open>HH * 60 + MM\<close>: \<open>22:00\<close> and \<open>06:00\<close> are 1320 and 360.
\<close>

theorem isInTimeWindow_gate:
  "(tw_start (timeWindow (settings r)) = None \<or> tw_start (timeWindow (settings r)) = Some []
      \<or> tw_end (timeWindow (settings r)) = None \<or> tw_end (timeWindow (settings r)) = Some []
      \<longrightarrow> isInTimeWindow rt clk r = Inr True)
   \<and> (tw_start (timeWindow (settings r)) = Some a \<and> a \<noteq> []
        \<and> tw_end (timeWindow (settings r)) = Some b \<and> b \<noteq> []
        \<and> parseTime rt a = Fin s \<and> parseTime rt b = Fin e
        \<and> (tw_timezone (timeWindow (settings r)) = Some z \<and> z \<noteq> []
            \<or> (tw_timezone (timeWindow (settings r)) = None
                \<or> tw_timezone (timeWindow (settings r)) = Some []) \<and> z = ''UTC'')
        \<and> localTime clk z = Some (Fin (of_nat h), Fin (of_nat m)) \<and> h < 24 \<and> m < 60
      \<longrightarrow> isInTimeWindow rt clk r =
            Inr (if s \<le> e then s \<le> of_nat (h * 60 + m) \<and> of_nat (h * 60 + m) \<le> e
                 else s \<le> of_nat (h * 60 + m) \<or> of_nat (h * 60 + m) \<le> e))
   \<and> (hh < 100 \<and> mm < 100 \<longrightarrow>
        parseTime rt (twoDigits hh @ '':'' @ twoDigits mm) = Fin (of_nat (hh * 60 + mm)))
   \<and> parseTime rt ''22:00'' = Fin 1320
   \<and> parseTime rt ''06:00'' = Fin 360"
proof -
  let ?tw = "timeWindow (settings r)"
  have none: "isInTimeWindow rt clk r = Inr True"
    if "tw_start ?tw = None \<or> tw_start ?tw = Some [] \<or> tw_end ?tw = None \<or> tw_end ?tw = Some []"
    using that by (auto simp: isInTimeWindow_def Let_def unset_def)
  have both: "isInTimeWindow rt clk r =
            Inr (if s \<le> e then s \<le> of_nat (h * 60 + m) \<and> of_nat (h * 60 + m) \<le> e
                 else s \<le> of_nat (h * 60 + m) \<or> of_nat (h * 60 + m) \<le> e)"
    if w: "tw_start ?tw = Some a" "a \<noteq> []" "tw_end ?tw = Some b" "b \<noteq> []"
      and p: "parseTime rt a = Fin s" "parseTime rt b = Fin e"
      and z: "tw_timezone ?tw = Some z \<and> z \<noteq> []
            \<or> (tw_timezone ?tw = None \<or> tw_timezone ?tw = Some []) \<and> z = ''UTC''"
      and l: "localTime clk z = Some (Fin (of_nat h), Fin (of_nat m))" and hm: "h < 24" "m < 60"
  proof -
    have zone: "orElse (tw_timezone ?tw) ''UTC'' = z"
      using z by (auto simp: orElse_def)
    have cur: "num_add (num_mul (Fin (of_nat h)) (Fin 60)) (Fin (of_nat m))
                 = Fin (of_nat (h * 60 + m))"
      using hm by (intro minutes_of_day) simp_all
    have u: "\<not> unset (Some a)" "\<not> unset (Some b)"
      using w by (simp_all add: unset_def)
    show ?thesis
      using u zone l w p cur
      by (simp add: isInTimeWindow_def Let_def num_le_Fin num_ge_Fin
          del: num_mul.simps num_add.simps)
  qed
  have parse: "parseTime rt (twoDigits hh @ '':'' @ twoDigits mm) = Fin (of_nat (hh * 60 + mm))"
    if "hh < 100" "mm < 100"
    using that by (rule parseTime_twoDigits)
  from none both parse parseTime_examples(1,2)[of rt] show ?thesis by blast
qed

theorem isInTimeWindow_gate_witness:
  "isInTimeWindow sampleRuntime (clockAt 14 30) (windowRule ''22:00'' ''06:00'' (Some ''Asia/Tokyo''))
     = Inr True
   \<and> isInTimeWindow sampleRuntime (clockAt 14 30) (windowRule ''22:00'' ''06:00'' (Some ''UTC''))
     = Inr False
   \<and> isInTimeWindow sampleRuntime (clockAt 23 30) (windowRule ''22:00'' ''06:00'' None) = Inr True
   \<and> isInTimeWindow sampleRuntime (clockAt 2 0) (windowRule ''22:00'' ''06:00'' (Some [])) = Inr True
   \<and> isInTimeWindow sampleRuntime (clockAt 12 0) (windowRule ''22:00'' ''06:00'' None) = Inr False
   \<and> isInTimeWindow sampleRuntime (clockAt 12 0) (windowRule ''09:00'' ''17:00'' None) = Inr True
   \<and> isInTimeWindow sampleRuntime (clockAt 12 0) (windowRule ''09:00'' ''17:00'' (Some ''Asia/Tokyo''))
     = Inr False
   \<and> isInTimeWindow sampleRuntime (clockAt 12 0) ruleOne = Inr True
   \<and> parseTime sampleRuntime ''23:30'' = Fin 1410"
proof -
  have w: "tw_start (timeWindow (settings (windowRule x y z))) = Some x"
      "tw_end (timeWindow (settings (windowRule x y z))) = Some y"
      "tw_timezone (timeWindow (settings (windowRule x y z))) = z" for x y z
    by (simp_all add: windowRule_def)
  have utc: "localTime (clockAt h m) ''UTC'' = Some (Fin (of_nat h), Fin (of_nat m))" for h m
    by (simp add: clockAt_def)
  have tokyo: "localTime (clockAt h m) ''Asia/Tokyo''
                 = Some (Fin (of_nat ((h + 9) mod 24)), Fin (of_nat m))" for h m
    by (simp add: clockAt_def)
  have ne: "''22:00'' \<noteq> []" "''06:00'' \<noteq> []" "''09:00'' \<noteq> []" "''17:00'' \<noteq> []"
    "''Asia/Tokyo'' \<noteq> []" "''UTC'' \<noteq> []"
    by simp_all
  have u: "tw_start (timeWindow (settings ruleOne)) = None"
    by (simp add: ruleOne_def exampleRule_def)
  have td: "twoDigits 23 = ''23''" "twoDigits 30 = ''30''"
    unfolding twoDigits_def by code_simp+
  note night = isInTimeWindow_gate[where rt = sampleRuntime
      and a = "''22:00''" and b = "''06:00''" and s = 1320 and e = 360 and hh = 23 and mm = 30]
  note day = isInTimeWindow_gate[where rt = sampleRuntime
      and a = "''09:00''" and b = "''17:00''" and s = 540 and e = 1020 and hh = 23 and mm = 30]
  from night[where r = "windowRule ''22:00'' ''06:00'' (Some ''Asia/Tokyo'')"
      and clk = "clockAt 14 30" and z = "''Asia/Tokyo''" and h = 23 and m = 30]
    w ne parseTime_examples[of sampleRuntime] tokyo[of 14 30]
  have r1: "isInTimeWindow sampleRuntime (clockAt 14 30)
      (windowRule ''22:00'' ''06:00'' (Some ''Asia/Tokyo'')) = Inr True"
    by simp
  from night[where r = "windowRule ''22:00'' ''06:00'' (Some ''UTC'')"
      and clk = "clockAt 14 30" and z = "''UTC''" and h = 14 and m = 30]
    w ne parseTime_examples[of sampleRuntime] utc[of 14 30]
  have r2: "isInTimeWindow sampleRuntime (clockAt 14 30)
      (windowRule ''22:00'' ''06:00'' (Some ''UTC'')) = Inr False"
    by simp
  from night[where r = "windowRule ''22:00'' ''06:00'' None"
      and clk = "clockAt 23 30" and z = "''UTC''" and h = 23 and m = 30]
    w ne parseTime_examples[of sampleRuntime] utc[of 23 30]
  have r3: "isInTimeWindow sampleRuntime (clockAt 23 30) (windowRule ''22:00'' ''06:00'' None)
      = Inr True"
    by simp
  from night[where r = "windowRule ''22:00'' ''06:00'' (Some [])"
      and clk = "clockAt 2 0" and z = "''UTC''" and h = 2 and m = 0]
    w ne parseTime_examples[of sampleRuntime] utc[of 2 0]
  have r4: "isInTimeWindow sampleRuntime (clockAt 2 0) (windowRule ''22:00'' ''06:00'' (Some []))
      = Inr True"
    by simp
  from night[where r = "windowRule ''22:00'' ''06:00'' None"
      and clk = "clockAt 12 0" and z = "''UTC''" and h = 12 and m = 0]
    w ne parseTime_examples[of sampleRuntime] utc[of 12 0]
  have r5: "isInTimeWindow sampleRuntime (clockAt 12 0) (windowRule ''22:00'' ''06:00'' None)
      = Inr False"
    by simp
  from day[where r = "windowRule ''09:00'' ''17:00'' None"
      and clk = "clockAt 12 0" and z = "''UTC''" and h = 12 and m = 0]
    w ne parseTime_examples[of sampleRuntime] utc[of 12 0]
  have r6: "isInTimeWindow sampleRuntime (clockAt 12 0) (windowRule ''09:00'' ''17:00'' None)
      = Inr True"
    by simp
  from day[where r = "windowRule ''09:00'' ''17:00'' (Some ''Asia/Tokyo'')"
      and clk = "clockAt 12 0" and z = "''Asia/Tokyo''" and h = 21 and m = 0]
    w ne parseTime_examples[of sampleRuntime] tokyo[of 12 0]
  have r7: "isInTimeWindow sampleRuntime (clockAt 12 0)
      (windowRule ''09:00'' ''17:00'' (Some ''Asia/Tokyo'')) = Inr False"
    by simp
  from night[where r = ruleOne and clk = "clockAt 12 0" and z = "''UTC''" and h = 0 and m = 0] u
  have r8: "isInTimeWindow sampleRuntime (clockAt 12 0) ruleOne = Inr True"
    by blast
  from night[where r = ruleOne and clk = "clockAt 12 0" and z = "''UTC''" and h = 0 and m = 0]
  have "(23::nat) < 100 \<and> (30::nat) < 100 \<longrightarrow>
      parseTime sampleRuntime (twoDigits 23 @ '':'' @ twoDigits 30) = Fin (of_nat (23 * 60 + 30))"
    by blast
  then have r9: "parseTime sampleRuntime ''23:30'' = Fin 1410"
    by (simp add: td)
  from r1 r2 r3 r4 r5 r6 r7 r8 r9 show ?thesis by blast
qed

section \<open>The trigger handler\<close>









lemma processed_Cons:
  "processed rt clk data i (r # rs) =
     (if handled rt (clk i) r data then Suc (processed rt clk data (Suc i) rs) else 0)"
  by (simp add: processed_def)



lemma processed_stop:
  "k < length cs \<Longrightarrow> \<not> handled rt (clk (i + k)) (cs ! k) data \<Longrightarrow> processed rt clk data i cs \<le> k"
proof (induction cs arbitrary: i k)
  case Nil
  then show ?case by simp
next
  case (Cons r rs)
  show ?case
  proof (cases k)
    case 0
    with Cons.prems show ?thesis by (simp add: processed_Cons)
  next
    case (Suc j)
    with Cons.prems have "j < length rs" "\<not> handled rt (clk (Suc i + j)) (rs ! j) data" by simp_all
    from Cons.IH[OF this] Suc show ?thesis by (simp add: processed_Cons)
  qed
qed



















subsection \<open>The sample request\<close>



















end
